theory Spec2Isabelle
  imports Complex_Main
begin

section \<open>Data model\<close>

text \<open>
  The persisted state is four MongoDB collections (users, companies, expenses,
  approvals). A collection is a list in insertion order and the ObjectId of a document is
  its position in that list: none of the modelled routes deletes a document (users are
  only deactivated), so positions are stable and a fresh document gets the position
  \<open>length\<close> of the collection. Field names carry the prefix of their collection
  (\<open>u_\<close>, \<open>c_\<close>, \<open>e_\<close>, \<open>a_\<close>) because several collections share field names.
  Amounts and thresholds are the rationals their doubles stand for; levels and times
  (milliseconds) are naturals. The timestamps Mongoose maintains
  (\<open>createdAt\<close>, \<open>updatedAt\<close>) are left out.
\<close>

type_synonym oid = nat

datatype user_role = admin | manager | employee

datatype rule_mode = percentage | specific | hybrid

datatype expense_status = Pending | Approved | Rejected | PartiallyApproved

datatype approval_status = TaskPending | TaskApproved | TaskRejected

text \<open>Modelled from the spec: the User model (models/User.js) is not among the sources.
  The record has the fields of a user that the routes and the middleware read: the
  company, the role (admin, manager or employee), the active flag and the direct manager.\<close>

record user_doc =
  u_company :: oid
  u_role :: user_role
  u_isActive :: bool
  u_manager :: "oid option"

text \<open>models/Company.js; the fields of \<open>settings\<close> are flattened into the record.\<close>

record company_doc =
  c_currency :: string
  approvalRules :: rule_mode
  percentageThreshold :: rat
  specificApprovers :: "oid list"

record approved_entry =
  ab_user :: oid
  ab_level :: nat
  ab_approvedAt :: nat
  ab_comments :: "string option"

record rejected_entry =
  rb_user :: oid
  rb_level :: nat
  rb_rejectedAt :: nat
  rb_reason :: string

text \<open>The Expense model (receipt and ocrData, which no modelled route writes, are left out).\<close>

record expense_doc =
  e_employee :: oid
  e_company :: oid
  e_amount :: rat
  e_currency :: string
  e_convertedAmount :: rat
  e_companyCurrency :: string
  e_exchangeRate :: rat
  e_category :: string
  e_description :: string
  e_expenseDate :: nat
  e_tags :: "string list"
  e_status :: expense_status
  e_currentApprover :: "oid option"
  e_approvalLevel :: nat
  e_totalApprovalLevels :: nat
  e_rejectionReason :: "string option"
  e_approvedBy :: "approved_entry list"
  e_rejectedBy :: "rejected_entry list"

text \<open>The Approval model (the reminder bookkeeping fields are left out).\<close>

record approval_doc =
  a_expense :: oid
  a_approver :: oid
  a_level :: nat
  a_status :: approval_status
  a_comments :: "string option"
  a_rejectionReason :: "string option"
  a_approvedAt :: "nat option"
  a_dueDate :: "nat option"

record db =
  users :: "user_doc list"
  companies :: "company_doc list"
  expenses :: "expense_doc list"
  approvals :: "approval_doc list"

datatype response = Response (status_code: nat) (message: string)

section \<open>Collection access\<close>

text \<open>\<open>Model.findById\<close>: the document, or null when there is none.\<close>

definition findById :: "'a list \<Rightarrow> oid \<Rightarrow> 'a option" where
  "findById xs i = (if i < length xs then Some (xs ! i) else None)"

text \<open>\<open>Model.findOne(query)\<close>: the id of the first document, in the collection's order,
  that matches the query.\<close>

fun findOne_from :: "nat \<Rightarrow> ('a \<Rightarrow> bool) \<Rightarrow> 'a list \<Rightarrow> oid option" where
  "findOne_from i P [] = None"
| "findOne_from i P (x # xs) = (if P x then Some i else findOne_from (Suc i) P xs)"

definition findOne :: "('a \<Rightarrow> bool) \<Rightarrow> 'a list \<Rightarrow> oid option" where
  "findOne P xs = findOne_from 0 P xs"

text \<open>\<open>comments || null\<close>: a missing or empty comment is stored as null.\<close>

definition or_null :: "string option \<Rightarrow> string option" where
  "or_null c = (case c of None \<Rightarrow> None | Some s \<Rightarrow> if s = [] then None else Some s)"

text \<open>Seven days in milliseconds, \<open>7 * 24 * 60 * 60 * 1000\<close>.\<close>

definition week_ms :: nat where
  "week_ms = 7 * 24 * 60 * 60 * 1000"

section \<open>JavaScript numbers\<close>

text \<open>
  A JavaScript number is an IEEE 754 double. A finite double is written here as the
  rational it stands for, and every arithmetic operation returns the double nearest to the
  exact result, a tie going to the even significand. \<open>binade x\<close> is the power of two
  with \<open>binade x \<le> x < 2 * binade x\<close>; the doubles in that range are the multiples of
  \<open>binade x / 2 ^ 52\<close>. Overflow and the subnormal range are not modelled: the handlers
  round quotients of two array lengths and their products with 100.
\<close>

function binade :: "rat \<Rightarrow> rat" where
  "binade x = (if x \<le> 0 then 1 else if x < 1 then binade (2 * x) / 2
               else if 2 \<le> x then 2 * binade (x / 2) else 1)"
  by pat_completeness auto
termination
proof (relation "measure (\<lambda>x. if x < 1 then nat \<lceil>1 / x\<rceil> else nat \<lfloor>x\<rfloor>)")
  show "wf (measure (\<lambda>x::rat. if x < 1 then nat \<lceil>1 / x\<rceil> else nat \<lfloor>x\<rfloor>))"
    by simp
next
  fix x :: rat
  assume a: "\<not> x \<le> 0" "x < 1"
  have up: "nat \<lceil>1 / (2 * x)\<rceil> < nat \<lceil>1 / x\<rceil>" if b: "2 * x < 1"
  proof -
    have y: "2 < 1 / x" using a b by (simp add: less_divide_eq)
    have e: "1 / (2 * x) = 1 / x / 2" by simp
    have "1 / x / 2 \<le> 1 / x - 1" using y by simp
    then have "\<lceil>1 / x / 2\<rceil> \<le> \<lceil>1 / x - 1\<rceil>" by (rule ceiling_mono)
    then have l: "\<lceil>1 / x / 2\<rceil> < \<lceil>1 / x\<rceil>" by simp
    have "0 < \<lceil>1 / x\<rceil>" using a by simp
    then show ?thesis unfolding e using l by linarith
  qed
  have top: "nat \<lfloor>2 * x\<rfloor> < nat \<lceil>1 / x\<rceil>" if b: "\<not> 2 * x < 1"
  proof -
    have "\<lfloor>2 * x\<rfloor> = 1" using a b by (simp add: floor_unique)
    moreover have "1 < 1 / x" using a by simp
    then have "1 < \<lceil>1 / x\<rceil>" by (simp add: less_ceiling_iff)
    ultimately show ?thesis by simp
  qed
  show "(2 * x, x) \<in> measure (\<lambda>x. if x < 1 then nat \<lceil>1 / x\<rceil> else nat \<lfloor>x\<rfloor>)"
    using a up top by simp
next
  fix x :: rat
  assume a: "\<not> x \<le> 0" "\<not> x < 1" "2 \<le> x"
  have "x / 2 \<le> x - 1" using a by simp
  then have "\<lfloor>x / 2\<rfloor> \<le> \<lfloor>x - 1\<rfloor>" by (rule floor_mono)
  then have "\<lfloor>x / 2\<rfloor> < \<lfloor>x\<rfloor>" by simp
  moreover have "0 < \<lfloor>x\<rfloor>" using a by simp
  ultimately have "nat \<lfloor>x / 2\<rfloor> < nat \<lfloor>x\<rfloor>" by simp
  then show "(x / 2, x) \<in> measure (\<lambda>x. if x < 1 then nat \<lceil>1 / x\<rceil> else nat \<lfloor>x\<rfloor>)"
    using a by simp
qed

declare binade.simps [simp del]

text \<open>The nearest integer, a tie going to the even one.\<close>

definition round_even :: "rat \<Rightarrow> int" where
  "round_even x =
     (if x - of_int \<lfloor>x\<rfloor> < 1 / 2 then \<lfloor>x\<rfloor>
      else if 1 / 2 < x - of_int \<lfloor>x\<rfloor> then \<lfloor>x\<rfloor> + 1
      else if even \<lfloor>x\<rfloor> then \<lfloor>x\<rfloor> else \<lfloor>x\<rfloor> + 1)"

text \<open>The double nearest to \<open>x\<close>.\<close>

definition double :: "rat \<Rightarrow> rat" where
  "double x =
     sgn x * of_int (round_even (\<bar>x\<bar> * 2 ^ 52 / binade \<bar>x\<bar>)) * binade \<bar>x\<bar> / 2 ^ 52"

section \<open>Middleware\<close>

text \<open>
  \<open>auth\<close>: the request carries a token that decodes to user id \<open>uid\<close> (a missing or
  forged token never reaches the handlers and is not modelled); the user must exist and be
  active. The result is the rejection, or \<open>req.user\<close>.
\<close>

definition auth :: "db \<Rightarrow> oid \<Rightarrow> response + user_doc" where
  "auth d uid =
     (case findById (users d) uid of
        None \<Rightarrow> Inl (Response 401 ''Token is not valid'')
      | Some u \<Rightarrow>
          if \<not> u_isActive u then Inl (Response 401 ''User account is deactivated'')
          else Inr u)"

text \<open>\<open>authorize('manager', 'admin')\<close>.\<close>

definition authorize :: "user_role list \<Rightarrow> user_doc \<Rightarrow> bool" where
  "authorize roles u = (u_role u \<in> set roles)"

section \<open>routes/approvals.js: POST /:id/approve\<close>

text \<open>Lines 129-131: the approvals of the expense, and how many of them are approved.\<close>

definition allApprovals :: "db \<Rightarrow> oid \<Rightarrow> approval_doc list" where
  "allApprovals d eid = filter (\<lambda>a. a_expense a = eid) (approvals d)"

definition approvedCount :: "approval_doc list \<Rightarrow> nat" where
  "approvedCount as = length (filter (\<lambda>a. a_status a = TaskApproved) as)"

text \<open>Lines 134-139: the specific approver rule. \<open>specificApprovers\<close> is a Mongoose
  array of ObjectIds, whose \<open>includes\<close> finds the hexadecimal string of an id that
  it holds.\<close>

definition specific_rule :: "company_doc \<Rightarrow> oid \<Rightarrow> bool" where
  "specific_rule c uid =
     ((approvalRules c = specific \<or> approvalRules c = hybrid) \<and> uid \<in> set (specificApprovers c))"

text \<open>Line 143: \<open>percentageThreshold || 60\<close>; zero is falsy in JavaScript.\<close>

definition threshold :: "company_doc \<Rightarrow> rat" where
  "threshold c = (if percentageThreshold c = 0 then 60 else percentageThreshold c)"

text \<open>Line 144: \<open>(approvedCount / totalApprovers) * 100\<close>, a division and a
  multiplication of doubles, each rounded.\<close>

definition approvalPercentage :: "approval_doc list \<Rightarrow> rat" where
  "approvalPercentage as = double (double (of_nat (approvedCount as) / of_nat (length as)) * 100)"

text \<open>Lines 142-148: the percentage rule. With no approvals at all JavaScript computes
  \<open>0 / 0 = NaN\<close>, and every comparison with NaN is false.\<close>

definition percentage_rule :: "company_doc \<Rightarrow> approval_doc list \<Rightarrow> bool" where
  "percentage_rule c as =
     ((approvalRules c = percentage \<or> approvalRules c = hybrid) \<and>
      length as \<noteq> 0 \<and> approvalPercentage as \<ge> threshold c)"

definition shouldApprove :: "company_doc \<Rightarrow> oid \<Rightarrow> approval_doc list \<Rightarrow> bool" where
  "shouldApprove c uid as =
     (if specific_rule c uid then True else percentage_rule c as)"

text \<open>Line 161.\<close>

definition totalLevels :: "company_doc \<Rightarrow> nat" where
  "totalLevels c = (if approvalRules c = percentage then 3 else 2)"

text \<open>Lines 172-182: the next approver. Indexing the array past its end gives
  \<open>undefined\<close>, which is falsy; an ObjectId found there is its own \<open>_id\<close>.
  \<open>findOne\<close> has no sort, so it answers the first match in insertion order.\<close>

definition nextApprover :: "db \<Rightarrow> company_doc \<Rightarrow> expense_doc \<Rightarrow> nat \<Rightarrow> oid option" where
  "nextApprover d c e nextLevel =
     (if approvalRules c = specific \<and> length (specificApprovers c) > 0
      then findById (specificApprovers c) (nextLevel - 1)
      else findOne (\<lambda>u. u_company u = e_company e \<and>
                         u_role u = (if nextLevel = 2 then manager else admin)) (users d))"

text \<open>Lines 186-191: the approval document created for the next level.\<close>

definition new_approval :: "oid \<Rightarrow> oid \<Rightarrow> nat \<Rightarrow> nat \<Rightarrow> approval_doc" where
  "new_approval eid appr lvl now =
     \<lparr>a_expense = eid, a_approver = appr, a_level = lvl, a_status = TaskPending,
      a_comments = None, a_rejectionReason = None, a_approvedAt = None,
      a_dueDate = Some (now + week_ms)\<rparr>"

text \<open>
  The handler. \<open>now\<close> is the clock, \<open>uid\<close> the token's user, \<open>approvalId\<close> the path
  parameter, \<open>comments\<close> the optional (validated) body field. The result is the
  response together with the state the handler leaves behind; an exception inside the
  \<open>try\<close> block gives 500 and keeps what was saved before it.
\<close>

definition approve :: "db \<Rightarrow> nat \<Rightarrow> oid \<Rightarrow> oid \<Rightarrow> string option \<Rightarrow> response \<times> db" where
  "approve d now uid approvalId comments =
     (case auth d uid of
        Inl r \<Rightarrow> (r, d)
      | Inr u \<Rightarrow>
        if \<not> authorize [manager, admin] u
        then (Response 403 ''Access denied. Required role: manager or admin'', d)
        else
        (case findById (approvals d) approvalId of
           None \<Rightarrow> (Response 404 ''Approval not found'', d)
         | Some approval \<Rightarrow>
           if a_approver approval \<noteq> uid
           then (Response 403 ''You are not authorized to approve this expense'', d)
           else if a_status approval \<noteq> TaskPending
           then (Response 400 ''This approval has already been processed'', d)
           else
             let eid = a_expense approval;
                 approval' = approval\<lparr>a_status := TaskApproved,
                                      a_comments := or_null comments,
                                      a_approvedAt := Some now\<rparr>;
                 d1 = d\<lparr>approvals := (approvals d)[approvalId := approval']\<rparr>
             in
             (case findById (expenses d) eid of
                None \<Rightarrow> (Response 500 ''Server error'', d1)
              | Some expense \<Rightarrow>
                let expense1 = expense\<lparr>e_approvedBy := e_approvedBy expense @
                       [\<lparr>ab_user = uid, ab_level = a_level approval,
                         ab_approvedAt = now, ab_comments = or_null comments\<rparr>]\<rparr>
                in
                (case findById (companies d1) (e_company expense1) of
                   None \<Rightarrow> (Response 500 ''Server error'', d1)
                 | Some company \<Rightarrow>
                   if shouldApprove company uid (allApprovals d1 eid)
                   then (Response 200 ''Expense approved successfully'',
                         d1\<lparr>expenses := (expenses d1)[eid :=
                              expense1\<lparr>e_status := Approved, e_currentApprover := None\<rparr>]\<rparr>)
                   else if a_level approval \<ge> totalLevels company
                   then (Response 200 ''Expense approved successfully'',
                         d1\<lparr>expenses := (expenses d1)[eid :=
                              expense1\<lparr>e_status := Approved, e_currentApprover := None\<rparr>]\<rparr>)
                   else
                     let nextLevel = a_level approval + 1 in
                     (case nextApprover d1 company expense1 nextLevel of
                        Some next \<Rightarrow>
                          (Response 200 ''Expense approved successfully'',
                           d1\<lparr>approvals := approvals d1 @ [new_approval eid next nextLevel now],
                              expenses := (expenses d1)[eid :=
                                expense1\<lparr>e_currentApprover := Some next,
                                         e_approvalLevel := nextLevel\<rparr>]\<rparr>)
                      | None \<Rightarrow>
                          (Response 200 ''Expense approved successfully'',
                           d1\<lparr>expenses := (expenses d1)[eid :=
                                expense1\<lparr>e_status := Approved,
                                         e_currentApprover := None\<rparr>]\<rparr>))))))"

text \<open>
  The same handler in the two steps that another request can come between. Lines 82-105
  only read: the middleware, the approval with its populated expense (line 90), the two
  checks. Lines 107-209 then work on the documents that were loaded and on the collections
  as they are when the writes and the later queries arrive. \<open>save\<close> sends the paths
  whose assignment changed the loaded value (\<open>$set\<close>) and the elements pushed to an
  array (\<open>$push\<close>); the update is addressed by \<open>_id\<close> alone, so nothing makes a write
  depend on the approval still being pending.
\<close>

definition approve_check ::
  "db \<Rightarrow> oid \<Rightarrow> oid \<Rightarrow> response + approval_doc \<times> expense_doc option" where
  "approve_check d uid approvalId =
     (case auth d uid of
        Inl r \<Rightarrow> Inl r
      | Inr u \<Rightarrow>
        if \<not> authorize [manager, admin] u
        then Inl (Response 403 ''Access denied. Required role: manager or admin'')
        else
        (case findById (approvals d) approvalId of
           None \<Rightarrow> Inl (Response 404 ''Approval not found'')
         | Some approval \<Rightarrow>
           if a_approver approval \<noteq> uid
           then Inl (Response 403 ''You are not authorized to approve this expense'')
           else if a_status approval \<noteq> TaskPending
           then Inl (Response 400 ''This approval has already been processed'')
           else Inr (approval, findById (expenses d) (a_expense approval))))"

text \<open>What a path holds after \<open>save\<close>: the document was loaded with \<open>loaded\<close> there,
  the handler assigned \<open>new\<close>, and the collection holds \<open>stored\<close>.\<close>

definition save_path :: "'a \<Rightarrow> 'a \<Rightarrow> 'a \<Rightarrow> 'a" where
  "save_path loaded new stored = (if new = loaded then stored else new)"

definition approve_commit ::
  "db \<Rightarrow> nat \<Rightarrow> oid \<Rightarrow> oid \<Rightarrow> string option \<Rightarrow> approval_doc \<times> expense_doc option \<Rightarrow>
   response \<times> db" where
  "approve_commit d now uid approvalId comments loaded =
     (case loaded of (approval, populated) \<Rightarrow>
        let eid = a_expense approval;
            stored = approvals d ! approvalId;
            d1 = d\<lparr>approvals := (approvals d)[approvalId :=
                   stored\<lparr>a_status := save_path (a_status approval) TaskApproved (a_status stored),
                          a_comments := save_path (a_comments approval) (or_null comments)
                                          (a_comments stored),
                          a_approvedAt := save_path (a_approvedAt approval) (Some now)
                                            (a_approvedAt stored)\<rparr>]\<rparr>
        in
        (case populated of
           None \<Rightarrow> (Response 500 ''Server error'', d1)
         | Some expense \<Rightarrow>
           let kept = expenses d1 ! eid;
               pushed = kept\<lparr>e_approvedBy := e_approvedBy kept @
                          [\<lparr>ab_user = uid, ab_level = a_level approval,
                            ab_approvedAt = now, ab_comments = or_null comments\<rparr>]\<rparr>;
               closed = pushed\<lparr>
                          e_status := save_path (e_status expense) Approved (e_status kept),
                          e_currentApprover := save_path (e_currentApprover expense) None
                                                 (e_currentApprover kept)\<rparr>
           in
           (case findById (companies d1) (e_company expense) of
              None \<Rightarrow> (Response 500 ''Server error'', d1)
            | Some company \<Rightarrow>
              if shouldApprove company uid (allApprovals d1 eid)
              then (Response 200 ''Expense approved successfully'',
                    d1\<lparr>expenses := (expenses d1)[eid := closed]\<rparr>)
              else if a_level approval \<ge> totalLevels company
              then (Response 200 ''Expense approved successfully'',
                    d1\<lparr>expenses := (expenses d1)[eid := closed]\<rparr>)
              else
                let nextLevel = a_level approval + 1 in
                (case nextApprover d1 company expense nextLevel of
                   Some nx \<Rightarrow>
                     (Response 200 ''Expense approved successfully'',
                      d1\<lparr>approvals := approvals d1 @ [new_approval eid nx nextLevel now],
                         expenses := (expenses d1)[eid := pushed\<lparr>
                           e_currentApprover := save_path (e_currentApprover expense) (Some nx)
                                                  (e_currentApprover kept),
                           e_approvalLevel := save_path (e_approvalLevel expense) nextLevel
                                                (e_approvalLevel kept)\<rparr>]\<rparr>)
                 | None \<Rightarrow>
                     (Response 200 ''Expense approved successfully'',
                      d1\<lparr>expenses := (expenses d1)[eid := closed]\<rparr>)))))"

section \<open>routes/approvals.js: POST /:id/reject\<close>

text \<open>\<open>reason\<close> is the required body field; the validator refuses an empty one after
  the two middlewares have run.\<close>

definition reject :: "db \<Rightarrow> nat \<Rightarrow> oid \<Rightarrow> oid \<Rightarrow> string \<Rightarrow> string option \<Rightarrow> response \<times> db" where
  "reject d now uid approvalId reason comments =
     (case auth d uid of
        Inl r \<Rightarrow> (r, d)
      | Inr u \<Rightarrow>
        if \<not> authorize [manager, admin] u
        then (Response 403 ''Access denied. Required role: manager or admin'', d)
        else if reason = []
        then (Response 400 ''Rejection reason is required'', d)
        else
        (case findById (approvals d) approvalId of
           None \<Rightarrow> (Response 404 ''Approval not found'', d)
         | Some approval \<Rightarrow>
           if a_approver approval \<noteq> uid
           then (Response 403 ''You are not authorized to reject this expense'', d)
           else if a_status approval \<noteq> TaskPending
           then (Response 400 ''This approval has already been processed'', d)
           else
             let eid = a_expense approval;
                 approval' = approval\<lparr>a_status := TaskRejected,
                                      a_rejectionReason := Some reason,
                                      a_comments := or_null comments,
                                      a_approvedAt := Some now\<rparr>;
                 d1 = d\<lparr>approvals := (approvals d)[approvalId := approval']\<rparr>
             in
             (case findById (expenses d) eid of
                None \<Rightarrow> (Response 500 ''Server error'', d1)
              | Some expense \<Rightarrow>
                (Response 200 ''Expense rejected successfully'',
                 d1\<lparr>expenses := (expenses d1)[eid :=
                      expense\<lparr>e_status := Rejected,
                              e_rejectionReason := Some reason,
                              e_currentApprover := None,
                              e_rejectedBy := e_rejectedBy expense @
                                [\<lparr>rb_user = uid, rb_level = a_level approval,
                                  rb_rejectedAt = now, rb_reason = reason\<rparr>]\<rparr>]\<rparr>))))"

section \<open>routes/expenses.js: POST /\<close>

text \<open>The body of the request, after express-validator has typed it.\<close>

record expense_req =
  r_amount :: rat
  r_currency :: string
  r_category :: string
  r_description :: string
  r_expenseDate :: nat
  r_tags :: "string list option"

text \<open>\<open>toUpperCase\<close> on ASCII letters (currency codes).\<close>

definition toUpperCase :: "string \<Rightarrow> string" where
  "toUpperCase s =
     map (\<lambda>c. let n = (of_char c :: nat) in
               if 97 \<le> n \<and> n \<le> 122 then char_of (n - 32) else c) s"

text \<open>
  \<open>convertCurrency\<close> (lines 48-69). \<open>rates from to\<close> stands for the answer of the
  exchange-rate service: \<open>None\<close> when the request fails or the table has no entry. A
  missing or zero rate throws; \<open>None\<close> is the exception.
\<close>

definition convertCurrency ::
  "(string \<Rightarrow> string \<Rightarrow> rat option) \<Rightarrow> rat \<Rightarrow> string \<Rightarrow> string \<Rightarrow> (rat \<times> rat) option" where
  "convertCurrency rates amount fromCurrency toCurrency =
     (if fromCurrency = toCurrency then Some (amount, 1)
      else (case rates fromCurrency toCurrency of
              None \<Rightarrow> None
            | Some rate \<Rightarrow> if rate = 0 then None else Some (amount * rate, rate)))"

definition categories :: "string list" where
  "categories = [''travel'', ''meals'', ''accommodation'', ''transportation'',
     ''office_supplies'', ''entertainment'', ''utilities'', ''communication'',
     ''training'', ''other'']"

text \<open>Lines 214-226: the expense document, with the schema's defaults.\<close>

definition new_expense ::
  "oid \<Rightarrow> oid \<Rightarrow> expense_req \<Rightarrow> string \<Rightarrow> rat \<Rightarrow> rat \<Rightarrow> expense_doc" where
  "new_expense uid cid req companyCurrency camount rate =
     \<lparr>e_employee = uid, e_company = cid,
      e_amount = r_amount req, e_currency = toUpperCase (r_currency req),
      e_convertedAmount = camount,
      e_companyCurrency = toUpperCase companyCurrency,
      e_exchangeRate = rate, e_category = r_category req,
      e_description = r_description req,
      e_expenseDate = r_expenseDate req,
      e_tags = (case r_tags req of None \<Rightarrow> [] | Some ts \<Rightarrow> ts),
      e_status = Pending, e_currentApprover = None,
      e_approvalLevel = 1, e_totalApprovalLevels = 3,
      e_rejectionReason = None, e_approvedBy = [], e_rejectedBy = []\<rparr>"

text \<open>Line 231: \<open>User.findById(req.user.manager)\<close>, the id of the manager's document
  when the submitter has a manager and that user exists.\<close>

definition findManager :: "db \<Rightarrow> user_doc \<Rightarrow> oid option" where
  "findManager d u =
     (case u_manager u of
        None \<Rightarrow> None
      | Some m \<Rightarrow> (case findById (users d) m of None \<Rightarrow> None | Some _ \<Rightarrow> Some m))"

text \<open>
  The handler (lines 188-257). The validators of the route answer 400; the schema's
  \<open>min: 0\<close> on the amount makes the first \<open>save\<close> throw, which answers 500 before
  anything is written. The first approval goes to the submitter's manager when that user
  exists.
\<close>

definition submit ::
  "(string \<Rightarrow> string \<Rightarrow> rat option) \<Rightarrow> db \<Rightarrow> nat \<Rightarrow> oid \<Rightarrow> expense_req \<Rightarrow> response \<times> db" where
  "submit rates d now uid req =
     (case auth d uid of
        Inl r \<Rightarrow> (r, d)
      | Inr u \<Rightarrow>
        if r_currency req = [] then (Response 400 ''Currency is required'', d)
        else if r_category req \<notin> set categories then (Response 400 ''Invalid category'', d)
        else if r_description req = [] then (Response 400 ''Description is required'', d)
        else
        (case findById (companies d) (u_company u) of
           None \<Rightarrow> (Response 400 ''Company not found'', d)
         | Some company \<Rightarrow>
           (case convertCurrency rates (r_amount req) (r_currency req) (c_currency company) of
              None \<Rightarrow> (Response 500 ''Server error'', d)
            | Some (camount, rate) \<Rightarrow>
              if r_amount req < 0 then (Response 500 ''Server error'', d)
              else
                let eid = length (expenses d);
                    expense = new_expense uid (u_company u) req (c_currency company) camount rate;
                    d1 = d\<lparr>expenses := expenses d @ [expense]\<rparr>
                in
                (case findManager d1 u of
                   Some m \<Rightarrow>
                     (Response 201 ''Expense created successfully'',
                      d1\<lparr>approvals := approvals d1 @ [new_approval eid m 1 now],
                         expenses := (expenses d1)[eid :=
                           expense\<lparr>e_currentApprover := Some m\<rparr>]\<rparr>)
                 | None \<Rightarrow> (Response 201 ''Expense created successfully'', d1)))))"

section \<open>Reachable states\<close>

text \<open>
  The states the three operations produce, starting from any directory of users and
  companies with no expense and no approval yet. Each request runs to completion before
  the next one starts; requests that overlap are followed step by step with
  \<open>approve_check\<close> and \<open>approve_commit\<close>.
\<close>

inductive reachable :: "db \<Rightarrow> bool" where
  r_init: "expenses d = [] \<Longrightarrow> approvals d = [] \<Longrightarrow> reachable d"
| r_submit: "reachable d \<Longrightarrow> reachable (snd (submit rates d now uid req))"
| r_approve: "reachable d \<Longrightarrow> reachable (snd (approve d now uid approvalId comments))"
| r_reject: "reachable d \<Longrightarrow> reachable (snd (reject d now uid approvalId reason comments))"

section \<open>Vocabulary of the statements\<close>

text \<open>
  \<open>accepted\<close> collects the checks both decision handlers make before their first
  write: the user of the token exists and is active, has role manager or admin, the
  approval exists, the user is its approver, and it is still pending.
\<close>

definition accepted :: "db \<Rightarrow> oid \<Rightarrow> oid \<Rightarrow> bool" where
  "accepted d uid k =
     (uid < length (users d) \<and> u_isActive (users d ! uid) \<and>
      authorize [manager, admin] (users d ! uid) \<and>
      k < length (approvals d) \<and> a_approver (approvals d ! k) = uid \<and>
      a_status (approvals d ! k) = TaskPending)"

text \<open>The expense of approval \<open>k\<close>, and the company of that expense.\<close>

definition task_expense :: "db \<Rightarrow> oid \<Rightarrow> oid" where
  "task_expense d k = a_expense (approvals d ! k)"

definition task_company :: "db \<Rightarrow> oid \<Rightarrow> oid" where
  "task_company d k = e_company (expenses d ! task_expense d k)"

text \<open>Both references of approval \<open>k\<close> point to existing documents.\<close>

definition linked :: "db \<Rightarrow> oid \<Rightarrow> bool" where
  "linked d k =
     (task_expense d k < length (expenses d) \<and> task_company d k < length (companies d))"

text \<open>The state after line 113 (\<open>approval.save()\<close>): only the acting approval has
  changed. The rules are evaluated on the approvals of this state.\<close>

definition decided :: "db \<Rightarrow> nat \<Rightarrow> oid \<Rightarrow> string option \<Rightarrow> db" where
  "decided d now k comments =
     d\<lparr>approvals := (approvals d)[k := (approvals d ! k)\<lparr>a_status := TaskApproved,
          a_comments := or_null comments, a_approvedAt := Some now\<rparr>]\<rparr>"

text \<open>The approvals of the acting approval's expense, as the handler reads them on
  line 129.\<close>

definition tasks_read :: "db \<Rightarrow> nat \<Rightarrow> oid \<Rightarrow> string option \<Rightarrow> approval_doc list" where
  "tasks_read d now k comments = allApprovals (decided d now k comments) (task_expense d k)"

text \<open>The approver the handler finds for the level after approval \<open>k\<close>.\<close>

definition resolved :: "db \<Rightarrow> oid \<Rightarrow> oid option" where
  "resolved d k =
     nextApprover d (companies d ! task_company d k) (expenses d ! task_expense d k)
       (a_level (approvals d ! k) + 1)"

text \<open>What a decision may change in an expense: \<open>approve\<close> only the status, the
  current approver, the approval level and the approval history; \<open>reject\<close> only the
  status, the current approver, the rejection reason and the rejection history.\<close>

definition approve_touches :: "expense_doc \<Rightarrow> expense_doc \<Rightarrow> bool" where
  "approve_touches e e' =
     (e' = e\<lparr>e_status := e_status e', e_currentApprover := e_currentApprover e',
             e_approvalLevel := e_approvalLevel e', e_approvedBy := e_approvedBy e'\<rparr>)"

definition reject_touches :: "expense_doc \<Rightarrow> expense_doc \<Rightarrow> bool" where
  "reject_touches e e' =
     (e' = e\<lparr>e_status := e_status e', e_currentApprover := e_currentApprover e',
             e_rejectionReason := e_rejectionReason e', e_rejectedBy := e_rejectedBy e'\<rparr>)"

text \<open>The frame of a decision: users and companies are untouched, no expense and no
  approval disappears, every approval other than \<open>k\<close> and every expense other than the
  one of approval \<open>k\<close> is unchanged, and at most \<open>n\<close> approvals are new.\<close>

definition frame :: "db \<Rightarrow> db \<Rightarrow> oid \<Rightarrow> nat \<Rightarrow> bool" where
  "frame d d' k n =
     (users d' = users d \<and> companies d' = companies d \<and>
      length (expenses d') = length (expenses d) \<and>
      length (approvals d) \<le> length (approvals d') \<and>
      length (approvals d') \<le> length (approvals d) + n \<and>
      (\<forall>i<length (approvals d). i \<noteq> k \<longrightarrow> approvals d' ! i = approvals d ! i) \<and>
      (\<forall>e<length (expenses d). e \<noteq> task_expense d k \<longrightarrow> expenses d' ! e = expenses d ! e))"



text \<open>The three situations of an expense: it waits for an approver, it is decided, or
  it was submitted by a user without a manager and nobody was ever asked.\<close>

definition assigned :: "expense_doc \<Rightarrow> bool" where
  "assigned e =
     ((e_status e = Pending \<or> e_status e = PartiallyApproved) \<and> e_currentApprover e \<noteq> None)"

definition settled :: "expense_doc \<Rightarrow> bool" where
  "settled e = ((e_status e = Approved \<or> e_status e = Rejected) \<and> e_currentApprover e = None)"

definition stalled :: "db \<Rightarrow> oid \<Rightarrow> bool" where
  "stalled d e =
     (e_status (expenses d ! e) = Pending \<and> e_currentApprover (expenses d ! e) = None \<and>
      (\<forall>i<length (approvals d). a_expense (approvals d ! i) \<noteq> e))"

text \<open>The resolver in the words of claim C4: the entry of the specific approvers at index
  \<open>n - 1\<close> under specific rules, otherwise the first active user of the company with role
  manager for level 2 and admin above.\<close>

definition claimed_resolver :: "db \<Rightarrow> company_doc \<Rightarrow> expense_doc \<Rightarrow> nat \<Rightarrow> oid option" where
  "claimed_resolver d c e n =
     (if approvalRules c = specific then findById (specificApprovers c) (n - 1)
      else findOne (\<lambda>u. u_company u = e_company e \<and> u_isActive u \<and>
                         u_role u = (if n = 2 then manager else admin)) (users d))"

section \<open>Invariants of the reachable states\<close>

text \<open>Every approval refers to an existing expense, every expense to an existing company.\<close>

definition inv_refs :: "db \<Rightarrow> bool" where
  "inv_refs d = (\<forall>i<length (approvals d). a_expense (approvals d ! i) < length (expenses d))"

definition inv_comp :: "db \<Rightarrow> bool" where
  "inv_comp d = (\<forall>e<length (expenses d). e_company (expenses d ! e) < length (companies d))"

text \<open>Of two approvals of one expense, the earlier one is approved and has the lower level.\<close>

definition inv_chain :: "db \<Rightarrow> bool" where
  "inv_chain d = (\<forall>i j. i < j \<and> j < length (approvals d) \<and>
       a_expense (approvals d ! i) = a_expense (approvals d ! j) \<longrightarrow>
       a_status (approvals d ! i) = TaskApproved \<and>
       a_level (approvals d ! i) < a_level (approvals d ! j))"

text \<open>The expense of a pending approval is pending and waits for that approver.\<close>

definition inv_pend :: "db \<Rightarrow> bool" where
  "inv_pend d = (\<forall>i<length (approvals d). a_status (approvals d ! i) = TaskPending \<longrightarrow>
       e_status (expenses d ! a_expense (approvals d ! i)) = Pending \<and>
       e_currentApprover (expenses d ! a_expense (approvals d ! i)) =
         Some (a_approver (approvals d ! i)))"

text \<open>No expense is partially approved; a decided expense has no current approver; a
  pending expense without one has no approval at all.\<close>

definition inv_exp :: "db \<Rightarrow> bool" where
  "inv_exp d = (\<forall>e<length (expenses d).
       e_status (expenses d ! e) \<noteq> PartiallyApproved \<and>
       (e_status (expenses d ! e) \<noteq> Pending \<longrightarrow> e_currentApprover (expenses d ! e) = None) \<and>
       (e_status (expenses d ! e) = Pending \<and> e_currentApprover (expenses d ! e) = None \<longrightarrow>
          (\<forall>i<length (approvals d). a_expense (approvals d ! i) \<noteq> e)))"

definition consistent :: "db \<Rightarrow> bool" where
  "consistent d = (inv_refs d \<and> inv_comp d \<and> inv_chain d \<and> inv_pend d \<and> inv_exp d)"

section \<open>Example states\<close>

text \<open>A company directory of three active users: an employee whose manager is user 1,
  a manager whose manager is user 2, and an admin without a manager.\<close>

definition staff :: "user_doc list" where
  "staff = [\<lparr>u_company = 0, u_role = employee, u_isActive = True, u_manager = Some 1\<rparr>,
            \<lparr>u_company = 0, u_role = manager, u_isActive = True, u_manager = Some 2\<rparr>,
            \<lparr>u_company = 0, u_role = admin, u_isActive = True, u_manager = None\<rparr>]"

definition firm :: "rule_mode \<Rightarrow> rat \<Rightarrow> oid list \<Rightarrow> company_doc" where
  "firm mode thr as =
     \<lparr>c_currency = ''USD'', approvalRules = mode, percentageThreshold = thr,
      specificApprovers = as\<rparr>"

text \<open>A pending expense of user 0 in company 0 that waits for user \<open>u\<close>.\<close>

definition claim_for :: "oid \<Rightarrow> expense_doc" where
  "claim_for u =
     \<lparr>e_employee = 0, e_company = 0, e_amount = 120, e_currency = ''USD'',
      e_convertedAmount = 120, e_companyCurrency = ''USD'', e_exchangeRate = 1,
      e_category = ''travel'', e_description = ''taxi'', e_expenseDate = 5, e_tags = [],
      e_status = Pending, e_currentApprover = Some u, e_approvalLevel = 1,
      e_totalApprovalLevels = 3, e_rejectionReason = None, e_approvedBy = [],
      e_rejectedBy = []\<rparr>"

definition task :: "oid \<Rightarrow> nat \<Rightarrow> approval_status \<Rightarrow> approval_doc" where
  "task u lvl st =
     \<lparr>a_expense = 0, a_approver = u, a_level = lvl, a_status = st, a_comments = None,
      a_rejectionReason = None, a_approvedAt = None, a_dueDate = Some week_ms\<rparr>"

definition taxi :: expense_req where
  "taxi = \<lparr>r_amount = 120, r_currency = ''USD'', r_category = ''travel'',
           r_description = ''taxi'', r_expenseDate = 5, r_tags = None\<rparr>"

text \<open>A hybrid company whose specific approver is the manager, and a hybrid company
  whose specific approver is nobody in the directory, with an expense at level 2.\<close>

definition db_hybrid :: db where
  "db_hybrid = \<lparr>users = staff, companies = [firm hybrid 70 [1]], expenses = [claim_for 1],
       approvals = [task 1 1 TaskPending]\<rparr>"

definition db_cap :: db where
  "db_cap = \<lparr>users = staff, companies = [firm hybrid 70 [7]], expenses = [claim_for 2],
       approvals = [task 1 1 TaskPending, task 2 2 TaskPending]\<rparr>"



text \<open>A company under specific rules with no specific approver: before the submission,
  after it, and after the manager's approval.\<close>

definition db_started :: db where
  "db_started = \<lparr>users = staff, companies = [firm specific 60 []], expenses = [],
               approvals = []\<rparr>"

definition db_level1 :: db where
  "db_level1 = \<lparr>users = staff, companies = [firm specific 60 []], expenses = [claim_for 1],
               approvals = [task 1 1 TaskPending]\<rparr>"

definition db_level2 :: db where
  "db_level2 = \<lparr>users = staff, companies = [firm specific 60 []],
      expenses = [(claim_for 1)\<lparr>e_approvalLevel := 2,
         e_approvedBy := [\<lparr>ab_user = 1, ab_level = 1, ab_approvedAt = 0, ab_comments = None\<rparr>]\<rparr>],
      approvals = [(task 1 1 TaskPending)\<lparr>a_status := TaskApproved, a_approvedAt := Some 0\<rparr>,
                   task 1 2 TaskPending]\<rparr>"

text \<open>A directory whose first manager is deactivated, and an expense with a second,
  undecided first-level task.\<close>

definition db_inactive :: db where
  "db_inactive = \<lparr>users =
        [\<lparr>u_company = 0, u_role = employee, u_isActive = True, u_manager = Some 2\<rparr>,
         \<lparr>u_company = 0, u_role = manager, u_isActive = False, u_manager = None\<rparr>,
         \<lparr>u_company = 0, u_role = manager, u_isActive = True, u_manager = None\<rparr>],
      companies = [firm percentage 60 []], expenses = [claim_for 2],
      approvals = [task 2 1 TaskPending, task 2 1 TaskPending]\<rparr>"

text \<open>The admin, who has no manager, submits an expense.\<close>

definition db_stalled :: db where
  "db_stalled = \<lparr>users = staff, companies = [firm specific 60 []],
      expenses = [(claim_for 1)\<lparr>e_employee := 2, e_currentApprover := None\<rparr>],
      approvals = []\<rparr>"



text \<open>The state after two overlapping approvals of the first-level task of
  \<open>db_level1\<close>.\<close>

definition db_raced :: db where
  "db_raced = \<lparr>users = staff, companies = [firm specific 60 []],
      expenses = [(claim_for 1)\<lparr>e_approvalLevel := 2,
         e_approvedBy := [\<lparr>ab_user = 1, ab_level = 1, ab_approvedAt = 0, ab_comments = None\<rparr>,
                          \<lparr>ab_user = 1, ab_level = 1, ab_approvedAt = 0, ab_comments = None\<rparr>]\<rparr>],
      approvals = [(task 1 1 TaskPending)\<lparr>a_status := TaskApproved, a_approvedAt := Some 0\<rparr>,
                   task 1 2 TaskPending, task 1 2 TaskPending]\<rparr>"

text \<open>Threshold zero, and a second first-level task that nobody has decided.\<close>

definition db_zero :: db where
  "db_zero = \<lparr>users = staff, companies = [firm percentage 0 []], expenses = [claim_for 1],
      approvals = [task 1 1 TaskPending, task 2 1 TaskPending]\<rparr>"

section \<open>Rounding, evaluated\<close>

text \<open>
  The percentages that the examples below compute, rounded twice as line 144 does: 1 of 1,
  1 of 2, 2 of 3, 1 of 3 and 29 of 50. The last one is 57.99999999999999 and not 58.
\<close>

lemma floor_numeral_quotient:
  "\<lfloor>numeral a / numeral b :: rat\<rfloor> = numeral a div numeral b"
  using floor_divide_of_int_eq[of "numeral a" "numeral b", where ?'a = rat] by simp

lemmas double_eval = double_def round_even_def binade.simps floor_numeral_quotient

lemma percent_1_1: "double (double 1 * 100) = 100"
  by (simp add: double_eval)

lemma percent_1_2: "double (double (1 / 2) * 100) = 50"
  by (simp add: double_eval)

lemma percent_2_3: "double (double (2 / 3) * 100) = 2345624805922133 / 35184372088832"
  by (simp add: double_eval)

lemma percent_1_3: "double (double (1 / 3) * 100) = 2345624805922133 / 70368744177664"
  by (simp add: double_eval)

lemma percent_29_50: "double (double (29 / 50) * 100) = 8162774324609023 / 140737488355328"
  by (simp add: double_eval)

lemma percent_29_50_below: "double (double (29 / 50) * 100) < 58"
  by (simp add: percent_29_50)

lemmas percent_eval = percent_1_1 percent_1_2 percent_2_3 percent_1_3

section \<open>Unfolding the definitions\<close>

lemmas example_defs = staff_def firm_def claim_for_def task_def taxi_def week_ms_def

lemmas handler_defs = auth_def authorize_def findById_def findOne_def or_null_def
  allApprovals_def approvedCount_def specific_rule_def threshold_def approvalPercentage_def
  percentage_rule_def shouldApprove_def totalLevels_def nextApprover_def new_approval_def
  percent_eval

lemmas statement_defs = accepted_def linked_def task_expense_def task_company_def decided_def
  tasks_read_def resolved_def

section \<open>The approve handler, case by case\<close>

text \<open>
  An approve request that is not accepted changes nothing. An accepted one marks the
  approval and then either stops with 500 (a dangling reference), or finalizes the expense,
  or opens the next level.
\<close>

lemma decided_simps [simp]:
  "users (decided d now k comments) = users d"
  "companies (decided d now k comments) = companies d"
  "expenses (decided d now k comments) = expenses d"
  "length (approvals (decided d now k comments)) = length (approvals d)"
  by (simp_all add: decided_def)

lemma nextApprover_cong:
  "users d' = users d \<Longrightarrow> e_company e' = e_company e \<Longrightarrow>
   nextApprover d' c e' n = nextApprover d c e n"
  by (simp add: nextApprover_def)

lemma approve_not_accepted:
  "\<not> accepted d uid k \<Longrightarrow> approve d now uid k comments = (fst (approve d now uid k comments), d)"
  by (simp add: approve_def accepted_def auth_def findById_def split: option.splits)

lemma approve_dangling:
  assumes "accepted d uid k" and "\<not> linked d k"
  shows "approve d now uid k comments = (Response 500 ''Server error'', decided d now k comments)"
  using assms
  by (auto simp add: approve_def accepted_def auth_def findById_def Let_def decided_def
      linked_def task_expense_def task_company_def)

lemma approve_final:
  assumes "accepted d uid k" and "linked d k"
    and "shouldApprove (companies d ! task_company d k) uid (tasks_read d now k comments) \<or>
         totalLevels (companies d ! task_company d k) \<le> a_level (approvals d ! k) \<or>
         resolved d k = None"
  shows "approve d now uid k comments =
     (Response 200 ''Expense approved successfully'',
      (decided d now k comments)\<lparr>expenses := (expenses d)[task_expense d k :=
         (expenses d ! task_expense d k)\<lparr>e_approvedBy := e_approvedBy (expenses d ! task_expense d k) @
             [\<lparr>ab_user = uid, ab_level = a_level (approvals d ! k), ab_approvedAt = now,
               ab_comments = or_null comments\<rparr>],
           e_status := Approved, e_currentApprover := None\<rparr>]\<rparr>)"
proof -
  have n: "nextApprover (decided d now k comments) c
       ((expenses d ! task_expense d k)\<lparr>e_approvedBy := ab\<rparr>) n = 
       nextApprover d c (expenses d ! task_expense d k) n" for c ab n
    by (rule nextApprover_cong) (simp_all add: decided_def)
  show ?thesis
    using assms n
    by (auto simp add: approve_def accepted_def auth_def findById_def Let_def linked_def
        tasks_read_def resolved_def task_expense_def task_company_def
        decided_def[symmetric] split: option.splits)
qed

lemma approve_advance:
  assumes "accepted d uid k" and "linked d k"
    and "\<not> shouldApprove (companies d ! task_company d k) uid (tasks_read d now k comments)"
    and "a_level (approvals d ! k) < totalLevels (companies d ! task_company d k)"
    and "resolved d k = Some nx"
  shows "approve d now uid k comments =
     (Response 200 ''Expense approved successfully'',
      (decided d now k comments)\<lparr>
        approvals := approvals (decided d now k comments) @
          [new_approval (task_expense d k) nx (a_level (approvals d ! k) + 1) now],
        expenses := (expenses d)[task_expense d k :=
         (expenses d ! task_expense d k)\<lparr>e_approvedBy := e_approvedBy (expenses d ! task_expense d k) @
             [\<lparr>ab_user = uid, ab_level = a_level (approvals d ! k), ab_approvedAt = now,
               ab_comments = or_null comments\<rparr>],
           e_currentApprover := Some nx,
           e_approvalLevel := a_level (approvals d ! k) + 1\<rparr>]\<rparr>)"
proof -
  have n: "nextApprover (decided d now k comments) c
       ((expenses d ! task_expense d k)\<lparr>e_approvedBy := ab\<rparr>) n = 
       nextApprover d c (expenses d ! task_expense d k) n" for c ab n
    by (rule nextApprover_cong) simp_all
  show ?thesis
    using assms n
    by (auto simp add: approve_def accepted_def auth_def findById_def Let_def linked_def
        tasks_read_def resolved_def task_expense_def task_company_def
        decided_def[symmetric] split: option.splits)
qed

text \<open>A request that nothing interrupts is the check followed by the writes.\<close>

lemma save_path_same: "save_path x new x = new"
  by (simp add: save_path_def)

lemma nextApprover_pushed:
  "nextApprover d c (e\<lparr>e_approvedBy := ab\<rparr>) n = nextApprover d c e n"
  by (simp add: nextApprover_def)

lemma approve_phases:
  "approve d now uid k comments =
     (case approve_check d uid k of
        Inl r \<Rightarrow> (r, d)
      | Inr loaded \<Rightarrow> approve_commit d now uid k comments loaded)"
proof (cases "accepted d uid k")
  case False
  then have "\<exists>r. approve_check d uid k = Inl r \<and> approve d now uid k comments = (r, d)"
    by (auto simp add: approve_def approve_check_def accepted_def auth_def findById_def
        split: option.splits)
  then show ?thesis by auto
next
  case True
  then have c: "approve_check d uid k =
      Inr (approvals d ! k, findById (expenses d) (a_expense (approvals d ! k)))"
    by (simp add: approve_check_def accepted_def auth_def findById_def)
  show ?thesis
    unfolding c using True
    by (simp add: approve_def approve_commit_def save_path_same accepted_def auth_def
        findById_def nextApprover_pushed Let_def split: option.splits)
qed

section \<open>The reject handler, case by case\<close>

lemma reject_unchanged:
  "\<not> accepted d uid k \<or> reason = [] \<Longrightarrow>
   reject d now uid k reason comments = (fst (reject d now uid k reason comments), d)"
  by (auto simp add: reject_def accepted_def auth_def findById_def split: option.splits)

lemma reject_dangling:
  assumes "accepted d uid k" and "reason \<noteq> []"
    and "\<not> task_expense d k < length (expenses d)"
  shows "reject d now uid k reason comments =
     (Response 500 ''Server error'',
      d\<lparr>approvals := (approvals d)[k := (approvals d ! k)\<lparr>a_status := TaskRejected,
          a_rejectionReason := Some reason, a_comments := or_null comments,
          a_approvedAt := Some now\<rparr>]\<rparr>)"
  using assms
  by (auto simp add: reject_def accepted_def auth_def findById_def Let_def task_expense_def)

lemma reject_done:
  assumes "accepted d uid k" and "reason \<noteq> []"
    and "task_expense d k < length (expenses d)"
  shows "reject d now uid k reason comments =
     (Response 200 ''Expense rejected successfully'',
      d\<lparr>approvals := (approvals d)[k := (approvals d ! k)\<lparr>a_status := TaskRejected,
          a_rejectionReason := Some reason, a_comments := or_null comments,
          a_approvedAt := Some now\<rparr>],
        expenses := (expenses d)[task_expense d k :=
          (expenses d ! task_expense d k)\<lparr>e_status := Rejected,
             e_rejectionReason := Some reason, e_currentApprover := None,
             e_rejectedBy := e_rejectedBy (expenses d ! task_expense d k) @
               [\<lparr>rb_user = uid, rb_level = a_level (approvals d ! k),
                 rb_rejectedAt = now, rb_reason = reason\<rparr>]\<rparr>]\<rparr>)"
  using assms
  by (auto simp add: reject_def accepted_def auth_def findById_def Let_def task_expense_def)

section \<open>Facts about the lookups\<close>

lemma findOne_from_Some:
  "findOne_from n P xs = Some i \<longleftrightarrow>
     n \<le> i \<and> i - n < length xs \<and> P (xs ! (i - n)) \<and> (\<forall>j<i - n. \<not> P (xs ! j))"
proof (induction xs arbitrary: n)
  case Nil
  then show ?case by simp
next
  case (Cons x xs)
  show ?case
  proof (cases "P x")
    case True
    have "i = n" if "n \<le> i" "\<forall>j<i - n. \<not> P ((x # xs) ! j)"
    proof (rule ccontr)
      assume "i \<noteq> n"
      then have "0 < i - n" using that(1) by simp
      then have "\<not> P ((x # xs) ! 0)" using that(2) by blast
      then show False using True by simp
    qed
    then show ?thesis using True by auto
  next
    case False
    have "(Suc n \<le> i \<and> i - Suc n < length xs \<and> P (xs ! (i - Suc n)) \<and>
           (\<forall>j<i - Suc n. \<not> P (xs ! j))) \<longleftrightarrow>
          (n \<le> i \<and> i - n < length (x # xs) \<and> P ((x # xs) ! (i - n)) \<and>
           (\<forall>j<i - n. \<not> P ((x # xs) ! j)))" (is "?L \<longleftrightarrow> ?R")
    proof
      assume l: ?L
      then obtain m where m: "i - n = Suc m" "i - Suc n = m" by (metis Suc_diff_le diff_Suc_Suc)
      show ?R using l m False by (auto simp: nth_Cons split: nat.splits)
    next
      assume r: ?R
      then have "i - n \<noteq> 0" using False by (auto simp: nth_Cons split: nat.splits)
      then obtain m where m: "i - n = Suc m" "i - Suc n = m" "Suc n \<le> i"
        by (cases "i - n") auto
      show ?L using r m by (auto simp: nth_Cons split: nat.splits)
    qed
    then show ?thesis using False Cons.IH[of "Suc n"] by simp
  qed
qed

lemma findOne_Some:
  "findOne P xs = Some i \<longleftrightarrow> i < length xs \<and> P (xs ! i) \<and> (\<forall>j<i. \<not> P (xs ! j))"
  by (simp add: findOne_def findOne_from_Some)

lemma findOne_from_None: "findOne_from n P xs = None \<longleftrightarrow> (\<forall>x\<in>set xs. \<not> P x)"
  by (induction xs arbitrary: n) auto

lemma findOne_None: "findOne P xs = None \<longleftrightarrow> (\<forall>j<length xs. \<not> P (xs ! j))"
  by (simp add: findOne_def findOne_from_None all_set_conv_all_nth)


text \<open>Marking the pending approval \<open>k\<close> as approved adds one approved task to those
  of its expense and keeps their number.\<close>

lemma length_filter_update:
  "k < length xs \<Longrightarrow>
   length (filter P (xs[k := y])) + (if P (xs ! k) then 1 else 0) =
   length (filter P xs) + (if P y then 1 else 0)"
proof (induction xs arbitrary: k)
  case Nil
  then show ?case by simp
next
  case (Cons x xs)
  show ?case
  proof (cases k)
    case 0
    then show ?thesis by simp
  next
    case (Suc m)
    then have "m < length xs" using Cons.prems by simp
    from Cons.IH[OF this] show ?thesis using Suc by simp
  qed
qed

lemma tasks_read_count:
  assumes "k < length (approvals d)" and "a_status (approvals d ! k) = TaskPending"
  shows "length (tasks_read d now k comments) = length (allApprovals d (task_expense d k)) \<and>
         approvedCount (tasks_read d now k comments) =
           approvedCount (allApprovals d (task_expense d k)) + 1"
proof -
  let ?a = "(approvals d ! k)\<lparr>a_status := TaskApproved,
          a_comments := or_null comments, a_approvedAt := Some now\<rparr>"
  let ?E = "\<lambda>a. a_expense a = task_expense d k"
  let ?A = "\<lambda>a. a_expense a = task_expense d k \<and> a_status a = TaskApproved"
  have l: "length (filter ?E ((approvals d)[k := ?a])) = length (filter ?E (approvals d))"
    using length_filter_update[OF assms(1), of ?E ?a] by (simp add: task_expense_def)
  have c: "length (filter ?A ((approvals d)[k := ?a])) = length (filter ?A (approvals d)) + 1"
    using length_filter_update[OF assms(1), of ?A ?a] assms(2) by (simp add: task_expense_def)
  show ?thesis
    using l c
    by (simp add: tasks_read_def allApprovals_def approvedCount_def decided_def)
qed



section \<open>Preservation of the invariants\<close>

text \<open>
  Three shapes of transition cover the handlers: a decision that closes the expense
  (final approval or rejection), an approval that opens the next level, and a submission.
\<close>

lemma upd_same_field:
  "f a' = f (xs ! k) \<Longrightarrow> f (xs[k := a'] ! i) = f (xs ! i)"
  by (cases "i = k"; cases "k < length xs") (simp_all add: list_update_beyond)

lemma consistent_close:
  assumes w: "consistent d" and k: "k < length (approvals d)"
    and p: "a_status (approvals d ! k) = TaskPending"
    and a1: "a_expense a' = a_expense (approvals d ! k)"
    and a2: "a_level a' = a_level (approvals d ! k)"
    and a3: "a_status a' \<noteq> TaskPending"
    and e1: "e_company e' = e_company (expenses d ! a_expense (approvals d ! k))"
    and e2: "e_status e' = Approved \<or> e_status e' = Rejected"
    and e3: "e_currentApprover e' = None"
    and da: "approvals d' = (approvals d)[k := a']"
    and de: "expenses d' = (expenses d)[a_expense (approvals d ! k) := e']"
    and dc: "companies d' = companies d"
  shows "consistent d'"
proof -
  from w have r: "inv_refs d" and c: "inv_comp d" and ch: "inv_chain d"
    and pe: "inv_pend d" and ex: "inv_exp d" by (simp_all add: consistent_def)
  have last: "\<And>j. k < j \<Longrightarrow> j < length (approvals d) \<Longrightarrow>
      a_expense (approvals d ! j) \<noteq> a_expense (approvals d ! k)"
    using ch p unfolding inv_chain_def by (metis approval_status.distinct(1))
  have early: "\<And>i. i < k \<Longrightarrow> a_expense (approvals d ! i) = a_expense (approvals d ! k) \<Longrightarrow>
      a_status (approvals d ! i) = TaskApproved"
    using ch k unfolding inv_chain_def by blast
  have "inv_refs d'"
    using r k a1 unfolding inv_refs_def da de by (simp add: nth_list_update)
  moreover have "inv_comp d'"
    using c e1 r k unfolding inv_comp_def inv_refs_def da de dc by (simp add: nth_list_update)
  moreover have "inv_chain d'"
    unfolding inv_chain_def da
  proof (intro allI impI)
    fix i j
    assume h: "i < j \<and> j < length ((approvals d)[k := a']) \<and>
       a_expense ((approvals d)[k := a'] ! i) = a_expense ((approvals d)[k := a'] ! j)"
    then have ij: "i < j" "j < length (approvals d)" "i < length (approvals d)" by auto
    have same: "a_expense (approvals d ! i) = a_expense (approvals d ! j)"
      using h a1 by (simp add: upd_same_field[where f = a_expense])
    have "i \<noteq> k" using last[of j] same ij by auto
    then show "a_status ((approvals d)[k := a'] ! i) = TaskApproved \<and>
       a_level ((approvals d)[k := a'] ! i) < a_level ((approvals d)[k := a'] ! j)"
      using ch ij same a2 unfolding inv_chain_def
      by (simp add: upd_same_field[where f = a_level])
  qed
  moreover have "inv_pend d'"
    unfolding inv_pend_def da de
  proof (intro allI impI)
    fix i
    assume i: "i < length ((approvals d)[k := a'])"
      and s: "a_status ((approvals d)[k := a'] ! i) = TaskPending"
    have ik: "i \<noteq> k" using s a3 k by auto
    have il: "i < length (approvals d)" using i by simp
    have si: "a_status (approvals d ! i) = TaskPending" using s ik by simp
    have "a_expense (approvals d ! i) \<noteq> a_expense (approvals d ! k)"
    proof (cases "i < k")
      case True
      then show ?thesis using early[of i] si by auto
    next
      case False
      then show ?thesis using last[of i] ik il by auto
    qed
    then show "e_status ((expenses d)[a_expense (approvals d ! k) := e'] !
          a_expense ((approvals d)[k := a'] ! i)) = Pending \<and>
       e_currentApprover ((expenses d)[a_expense (approvals d ! k) := e'] !
          a_expense ((approvals d)[k := a'] ! i)) =
         Some (a_approver ((approvals d)[k := a'] ! i))"
      using pe il si ik unfolding inv_pend_def by (simp add: nth_list_update)
  qed
  moreover have "inv_exp d'"
    unfolding inv_exp_def da de
  proof (intro allI impI)
    fix e
    assume e: "e < length ((expenses d)[a_expense (approvals d ! k) := e'])"
    show "e_status ((expenses d)[a_expense (approvals d ! k) := e'] ! e) \<noteq> PartiallyApproved \<and>
       (e_status ((expenses d)[a_expense (approvals d ! k) := e'] ! e) \<noteq> Pending \<longrightarrow>
        e_currentApprover ((expenses d)[a_expense (approvals d ! k) := e'] ! e) = None) \<and>
       (e_status ((expenses d)[a_expense (approvals d ! k) := e'] ! e) = Pending \<and>
        e_currentApprover ((expenses d)[a_expense (approvals d ! k) := e'] ! e) = None \<longrightarrow>
        (\<forall>i<length ((approvals d)[k := a']). a_expense ((approvals d)[k := a'] ! i) \<noteq> e))"
    proof (cases "e = a_expense (approvals d ! k)")
      case True
      then show ?thesis using e e2 e3 by auto
    next
      case False
      then show ?thesis
        using ex e a1 unfolding inv_exp_def
        by (simp add: upd_same_field[where f = a_expense])
    qed
  qed
  ultimately show ?thesis by (simp add: consistent_def)
qed

lemma consistent_advance:
  assumes w: "consistent d" and k: "k < length (approvals d)"
    and p: "a_status (approvals d ! k) = TaskPending"
    and a1: "a_expense a' = a_expense (approvals d ! k)"
    and a2: "a_level a' = a_level (approvals d ! k)"
    and a3: "a_status a' = TaskApproved"
    and b1: "a_expense b = a_expense (approvals d ! k)"
    and b2: "a_level b = a_level (approvals d ! k) + 1"
    and b3: "a_approver b = nx"
    and e1: "e_company e' = e_company (expenses d ! a_expense (approvals d ! k))"
    and e2: "e_status e' = e_status (expenses d ! a_expense (approvals d ! k))"
    and e3: "e_currentApprover e' = Some nx"
    and da: "approvals d' = (approvals d)[k := a'] @ [b]"
    and de: "expenses d' = (expenses d)[a_expense (approvals d ! k) := e']"
    and dc: "companies d' = companies d"
  shows "consistent d'"
proof -
  let ?n = "length (approvals d)"
  let ?eid = "a_expense (approvals d ! k)"
  from w have r: "inv_refs d" and c: "inv_comp d" and ch: "inv_chain d"
    and pe: "inv_pend d" and ex: "inv_exp d" by (simp_all add: consistent_def)
  have last: "\<And>j. k < j \<Longrightarrow> j < ?n \<Longrightarrow> a_expense (approvals d ! j) \<noteq> ?eid"
    using ch p unfolding inv_chain_def by (metis approval_status.distinct(1))
  have early: "\<And>i. i < k \<Longrightarrow> a_expense (approvals d ! i) = ?eid \<Longrightarrow>
      a_status (approvals d ! i) = TaskApproved \<and> a_level (approvals d ! i) < a_level (approvals d ! k)"
    using ch k unfolding inv_chain_def by blast
  have eid: "?eid < length (expenses d)" using r k unfolding inv_refs_def by blast
  have pk: "e_status (expenses d ! ?eid) = Pending"
    using pe k p unfolding inv_pend_def by blast
  have nth_old: "\<And>i. i < ?n \<Longrightarrow> approvals d' ! i = (approvals d)[k := a'] ! i"
    by (simp add: da nth_append)
  have nth_new: "approvals d' ! ?n = b" by (simp add: da nth_append)
  have len: "length (approvals d') = Suc ?n" by (simp add: da)
  have exp_old: "\<And>i. i < ?n \<Longrightarrow> a_expense (approvals d' ! i) = a_expense (approvals d ! i)"
    using a1 by (simp add: nth_old upd_same_field[where f = a_expense])
  have lev_old: "\<And>i. i < ?n \<Longrightarrow> a_level (approvals d' ! i) = a_level (approvals d ! i)"
    using a2 by (simp add: nth_old upd_same_field[where f = a_level])
  have st_old: "\<And>i. i < ?n \<Longrightarrow> i \<noteq> k \<Longrightarrow> approvals d' ! i = approvals d ! i"
    by (simp add: nth_old)
  have st_k: "a_status (approvals d' ! k) = TaskApproved"
    using k a3 by (simp add: nth_old)
  have "inv_refs d'"
    unfolding inv_refs_def
  proof (intro allI impI)
    fix i assume "i < length (approvals d')"
    then have "i < ?n \<or> i = ?n" using len by auto
    then show "a_expense (approvals d' ! i) < length (expenses d')"
      using exp_old[of i] nth_new b1 eid r unfolding inv_refs_def by (auto simp: de)
  qed
  moreover have "inv_comp d'"
    using c e1 eid unfolding inv_comp_def de dc by (simp add: nth_list_update)
  moreover have "inv_chain d'"
    unfolding inv_chain_def
  proof (intro allI impI)
    fix i j
    assume h: "i < j \<and> j < length (approvals d') \<and>
       a_expense (approvals d' ! i) = a_expense (approvals d' ! j)"
    then have i: "i < ?n" and ij: "i < j" using len by auto
    have ei: "a_expense (approvals d' ! i) = a_expense (approvals d ! i)" using exp_old i by simp
    from h len have "j < ?n \<or> j = ?n" by auto
    then show "a_status (approvals d' ! i) = TaskApproved \<and>
       a_level (approvals d' ! i) < a_level (approvals d' ! j)"
    proof
      assume j: "j < ?n"
      then have same: "a_expense (approvals d ! i) = a_expense (approvals d ! j)"
        using h exp_old i by simp
      have "i \<noteq> k" using last[of j] same ij j by auto
      then show ?thesis
        using ch ij j i same lev_old st_old[of i] unfolding inv_chain_def by simp
    next
      assume j: "j = ?n"
      then have same: "a_expense (approvals d ! i) = ?eid" using h ei nth_new b1 by simp
      have lj: "a_level (approvals d' ! j) = a_level (approvals d ! k) + 1"
        using j nth_new b2 by simp
      consider "i < k" | "i = k" | "k < i" by linarith
      then show ?thesis
      proof cases
        case 1
        then show ?thesis using early[of i] same st_old[of i] i lev_old lj by simp
      next
        case 2
        then show ?thesis using st_k lev_old[of k] k lj by simp
      next
        case 3
        then show ?thesis using last[of i] same i by simp
      qed
    qed
  qed
  moreover have "inv_pend d'"
    unfolding inv_pend_def
  proof (intro allI impI)
    fix i
    assume i: "i < length (approvals d')" and s: "a_status (approvals d' ! i) = TaskPending"
    from i len have "i < ?n \<or> i = ?n" by auto
    then show "e_status (expenses d' ! a_expense (approvals d' ! i)) = Pending \<and>
       e_currentApprover (expenses d' ! a_expense (approvals d' ! i)) =
         Some (a_approver (approvals d' ! i))"
    proof
      assume il: "i < ?n"
      have ik: "i \<noteq> k" using s st_k by auto
      have si: "a_status (approvals d ! i) = TaskPending" using s st_old il ik by simp
      have "a_expense (approvals d ! i) \<noteq> ?eid"
      proof (cases "i < k")
        case True
        then show ?thesis using early[of i] si by auto
      next
        case False
        then show ?thesis using last[of i] ik il by auto
      qed
      then show ?thesis
        using pe il si ik st_old[of i] unfolding inv_pend_def by (simp add: de)
    next
      assume "i = ?n"
      then show ?thesis using nth_new b1 b3 e2 e3 pk eid by (simp add: de)
    qed
  qed
  moreover have "inv_exp d'"
    unfolding inv_exp_def
  proof (intro allI impI)
    fix e
    assume e: "e < length (expenses d')"
    show "e_status (expenses d' ! e) \<noteq> PartiallyApproved \<and>
       (e_status (expenses d' ! e) \<noteq> Pending \<longrightarrow> e_currentApprover (expenses d' ! e) = None) \<and>
       (e_status (expenses d' ! e) = Pending \<and> e_currentApprover (expenses d' ! e) = None \<longrightarrow>
        (\<forall>i<length (approvals d'). a_expense (approvals d' ! i) \<noteq> e))"
    proof (cases "e = ?eid")
      case True
      then show ?thesis using e e2 e3 pk by (simp add: de)
    next
      case False
      have "\<And>i. i < length (approvals d') \<Longrightarrow> a_expense (approvals d' ! i) \<noteq> e \<or>
           (i < ?n \<and> a_expense (approvals d ! i) = e)"
        using len exp_old nth_new b1 False by (metis less_Suc_eq)
      then show ?thesis
        using ex e False unfolding inv_exp_def by (auto simp: de)
    qed
  qed
  ultimately show ?thesis by (simp add: consistent_def)
qed

lemma consistent_new_expense:
  assumes w: "consistent d"
    and x1: "e_company x < length (companies d)"
    and x2: "e_status x = Pending"
    and bs: "bs = [] \<and> e_currentApprover x = None \<or>
             (\<exists>b. bs = [b] \<and> a_expense b = length (expenses d) \<and>
                  e_currentApprover x = Some (a_approver b))"
    and da: "approvals d' = approvals d @ bs"
    and de: "expenses d' = expenses d @ [x]"
    and dc: "companies d' = companies d"
  shows "consistent d'"
proof -
  let ?n = "length (approvals d)"
  let ?m = "length (expenses d)"
  from w have r: "inv_refs d" and c: "inv_comp d" and ch: "inv_chain d"
    and pe: "inv_pend d" and ex: "inv_exp d" by (simp_all add: consistent_def)
  have old: "\<And>i. i < ?n \<Longrightarrow> approvals d' ! i = approvals d ! i"
    by (simp add: da nth_append)
  have oldref: "\<And>i. i < ?n \<Longrightarrow> a_expense (approvals d ! i) < ?m"
    using r unfolding inv_refs_def by blast
  have olde: "\<And>e. e < ?m \<Longrightarrow> expenses d' ! e = expenses d ! e"
    by (simp add: de nth_append)
  have newe: "expenses d' ! ?m = x" by (simp add: de)
  have lene: "length (expenses d') = Suc ?m" by (simp add: de)
  have new: "\<And>i. i < length (approvals d') \<Longrightarrow> \<not> i < ?n \<Longrightarrow>
      i = ?n \<and> a_expense (approvals d' ! i) = ?m \<and>
      e_currentApprover x = Some (a_approver (approvals d' ! i))"
    using bs by (auto simp: da nth_append)
  have "inv_refs d'"
    unfolding inv_refs_def
  proof (intro allI impI)
    fix i assume "i < length (approvals d')"
    then show "a_expense (approvals d' ! i) < length (expenses d')"
      using new[of i] old[of i] oldref[of i] lene by (cases "i < ?n") auto
  qed
  moreover have "inv_comp d'"
    using c x1 unfolding inv_comp_def de dc by (auto simp: nth_append)
  moreover have "inv_chain d'"
    unfolding inv_chain_def
  proof (intro allI impI)
    fix i j
    assume h: "i < j \<and> j < length (approvals d') \<and>
       a_expense (approvals d' ! i) = a_expense (approvals d' ! j)"
    show "a_status (approvals d' ! i) = TaskApproved \<and>
       a_level (approvals d' ! i) < a_level (approvals d' ! j)"
    proof (cases "j < ?n")
      case True
      then show ?thesis using h ch old[of i] old[of j] unfolding inv_chain_def by auto
    next
      case False
      then have "j = ?n" and "a_expense (approvals d' ! j) = ?m" using new[of j] h by auto
      then show ?thesis using h old[of i] oldref[of i] by auto
    qed
  qed
  moreover have "inv_pend d'"
    unfolding inv_pend_def
  proof (intro allI impI)
    fix i
    assume i: "i < length (approvals d')" and s: "a_status (approvals d' ! i) = TaskPending"
    show "e_status (expenses d' ! a_expense (approvals d' ! i)) = Pending \<and>
       e_currentApprover (expenses d' ! a_expense (approvals d' ! i)) =
         Some (a_approver (approvals d' ! i))"
    proof (cases "i < ?n")
      case True
      then show ?thesis
        using pe s old[of i] oldref[of i] olde unfolding inv_pend_def by auto
    next
      case False
      then show ?thesis using new[of i] i newe x2 by auto
    qed
  qed
  moreover have "inv_exp d'"
    unfolding inv_exp_def
  proof (intro allI impI)
    fix e
    assume e: "e < length (expenses d')"
    show "e_status (expenses d' ! e) \<noteq> PartiallyApproved \<and>
       (e_status (expenses d' ! e) \<noteq> Pending \<longrightarrow> e_currentApprover (expenses d' ! e) = None) \<and>
       (e_status (expenses d' ! e) = Pending \<and> e_currentApprover (expenses d' ! e) = None \<longrightarrow>
        (\<forall>i<length (approvals d'). a_expense (approvals d' ! i) \<noteq> e))"
    proof (cases "e < ?m")
      case True
      have "\<And>i. i < length (approvals d') \<Longrightarrow> a_expense (approvals d' ! i) \<noteq> e \<or>
           (i < ?n \<and> a_expense (approvals d ! i) = e)"
        using new old True by (metis nat_neq_iff)
      then show ?thesis
        using ex True olde[of e] unfolding inv_exp_def by auto
    next
      case False
      then have em: "e = ?m" using e lene by auto
      have "\<And>i. i < length (approvals d') \<Longrightarrow> e_currentApprover x = None \<Longrightarrow>
           a_expense (approvals d' ! i) \<noteq> ?m"
        using new old oldref by (metis nat_neq_iff option.distinct(1))
      then show ?thesis using em newe x2 by auto
    qed
  qed
  ultimately show ?thesis by (simp add: consistent_def)
qed

lemma consistent_init: "expenses d = [] \<Longrightarrow> approvals d = [] \<Longrightarrow> consistent d"
  by (simp add: consistent_def inv_refs_def inv_comp_def inv_chain_def inv_pend_def inv_exp_def)

lemma consistent_submit:
  assumes w: "consistent d"
  shows "consistent (snd (submit rates d now uid req))"
proof (cases "auth d uid")
  case (Inl r)
  then show ?thesis using w by (simp add: submit_def)
next
  case (Inr u)
  show ?thesis
  proof (cases "r_currency req = [] \<or> r_category req \<notin> set categories \<or> r_description req = []")
    case True
    then show ?thesis using w Inr by (auto simp add: submit_def)
  next
    case False
    then have valid: "r_currency req \<noteq> []" "r_category req \<in> set categories"
      "r_description req \<noteq> []" by simp_all
    show ?thesis
    proof (cases "findById (companies d) (u_company u)")
      case None
      then show ?thesis using w Inr valid by (simp add: submit_def)
    next
      case (Some c)
      then have cid: "u_company u < length (companies d)"
        by (simp add: findById_def split: if_splits)
      show ?thesis
      proof (cases "convertCurrency rates (r_amount req) (r_currency req) (c_currency c)")
        case None
        then show ?thesis using w Inr valid Some by (simp add: submit_def)
      next
        case conv: (Some p)
        obtain camount rate where p: "p = (camount, rate)" by (cases p)
        show ?thesis
        proof (cases "r_amount req < 0")
          case True
          then show ?thesis using w Inr valid Some conv p by (simp add: submit_def)
        next
          case False
          let ?x = "new_expense uid (u_company u) req (c_currency c) camount rate"
          have fm: "findManager (d\<lparr>expenses := expenses d @ [?x]\<rparr>) u = findManager d u"
            by (simp add: findManager_def split: option.splits)
          have x: "e_company ?x < length (companies d)" "e_status ?x = Pending"
            "e_currentApprover ?x = None"
            using cid by (simp_all add: new_expense_def)
          show ?thesis
          proof (cases "findManager d u")
            case None
            have "snd (submit rates d now uid req) = d\<lparr>expenses := expenses d @ [?x]\<rparr>"
              using Inr valid Some conv p False None fm by (simp add: submit_def Let_def)
            then show ?thesis
              using consistent_new_expense[OF w x(1) x(2), of "[]"] x(3) by simp
          next
            case m: (Some m)
            let ?b = "new_approval (length (expenses d)) m 1 now"
            let ?y = "?x\<lparr>e_currentApprover := Some m\<rparr>"
            have "snd (submit rates d now uid req) =
                d\<lparr>expenses := expenses d @ [?y], approvals := approvals d @ [?b]\<rparr>"
              using Inr valid Some conv p False m fm by (simp add: submit_def Let_def)
            moreover have "e_company ?y < length (companies d)" "e_status ?y = Pending"
              using x by simp_all
            moreover have "\<exists>b. [?b] = [b] \<and> a_expense b = length (expenses d) \<and>
                e_currentApprover ?y = Some (a_approver b)"
              by (simp add: new_approval_def)
            ultimately show ?thesis
              using consistent_new_expense[OF w, of ?y "[?b]"] by simp
          qed
        qed
      qed
    qed
  qed
qed

lemma accepted_linked:
  assumes "consistent d" and "accepted d uid k"
  shows "linked d k"
  using assms
  by (simp add: consistent_def inv_refs_def inv_comp_def accepted_def linked_def
      task_expense_def task_company_def)

lemma consistent_approve:
  assumes w: "consistent d"
  shows "consistent (snd (approve d now uid k comments))"
proof (cases "accepted d uid k")
  case False
  then show ?thesis using w approve_not_accepted[of d uid k now comments]
    by (metis snd_conv)
next
  case acc: True
  have l: "linked d k" using accepted_linked[OF w acc] .
  have k: "k < length (approvals d)" and p: "a_status (approvals d ! k) = TaskPending"
    using acc by (simp_all add: accepted_def)
  let ?a = "(approvals d ! k)\<lparr>a_status := TaskApproved,
          a_comments := or_null comments, a_approvedAt := Some now\<rparr>"
  let ?c = "companies d ! task_company d k"
  show ?thesis
  proof (cases "shouldApprove ?c uid (tasks_read d now k comments) \<or>
         totalLevels ?c \<le> a_level (approvals d ! k) \<or> resolved d k = None")
    case True
    show ?thesis
      unfolding approve_final[OF acc l True]
      by (rule consistent_close[OF w k p, where a' = ?a])
        (simp_all add: decided_def task_expense_def)
  next
    case False
    then obtain nx where n: "resolved d k = Some nx" by auto
    have f1: "\<not> shouldApprove ?c uid (tasks_read d now k comments)" using False by simp
    have f2: "a_level (approvals d ! k) < totalLevels ?c" using False by simp
    show ?thesis
      unfolding approve_advance[OF acc l f1 f2 n]
      by (rule consistent_advance[OF w k p, where a' = ?a and nx = nx])
        (simp_all add: decided_def task_expense_def new_approval_def)
  qed
qed

lemma consistent_reject:
  assumes w: "consistent d"
  shows "consistent (snd (reject d now uid k reason comments))"
proof (cases "\<not> accepted d uid k \<or> reason = []")
  case True
  then show ?thesis using w reject_unchanged[of d uid k reason now comments]
    by (metis snd_conv)
next
  case False
  then have acc: "accepted d uid k" and r: "reason \<noteq> []" by simp_all
  have l: "task_expense d k < length (expenses d)"
    using accepted_linked[OF w acc] by (simp add: linked_def)
  have k: "k < length (approvals d)" and p: "a_status (approvals d ! k) = TaskPending"
    using acc by (simp_all add: accepted_def)
  show ?thesis
    unfolding reject_done[OF acc r l]
    by (rule consistent_close[OF w k p, where a' = "(approvals d ! k)\<lparr>a_status := TaskRejected,
          a_rejectionReason := Some reason, a_comments := or_null comments,
          a_approvedAt := Some now\<rparr>"])
      (simp_all add: task_expense_def)
qed

lemma reachable_consistent: "reachable d \<Longrightarrow> consistent d"
  by (induction rule: reachable.induct)
    (simp_all add: consistent_init consistent_submit consistent_approve consistent_reject)

section \<open>What a decision leaves alone\<close>

lemma approve_frame: "frame d (snd (approve d now uid k comments)) k 1"
proof (cases "accepted d uid k")
  case False
  then have "snd (approve d now uid k comments) = d"
    using approve_not_accepted[of d uid k now comments] by (metis snd_conv)
  then show ?thesis by (simp add: frame_def)
next
  case acc: True
  show ?thesis
  proof (cases "linked d k")
    case False
    show ?thesis
      unfolding approve_dangling[OF acc False]
      by (simp add: frame_def decided_def)
  next
    case l: True
    let ?c = "companies d ! task_company d k"
    show ?thesis
    proof (cases "shouldApprove ?c uid (tasks_read d now k comments) \<or>
         totalLevels ?c \<le> a_level (approvals d ! k) \<or> resolved d k = None")
      case True
      show ?thesis
        unfolding approve_final[OF acc l True]
        by (simp add: frame_def decided_def)
    next
      case False
      then obtain nx where n: "resolved d k = Some nx" by auto
      have f1: "\<not> shouldApprove ?c uid (tasks_read d now k comments)" using False by simp
      have f2: "a_level (approvals d ! k) < totalLevels ?c" using False by simp
      show ?thesis
        unfolding approve_advance[OF acc l f1 f2 n]
        by (simp add: frame_def decided_def nth_append)
    qed
  qed
qed

lemma approve_touches_nth:
  assumes "approve_touches (xs ! i) y" and "e < length xs"
  shows "approve_touches (xs ! e) (xs[i := y] ! e)"
proof (cases "e = i")
  case True
  then show ?thesis using assms by simp
next
  case False
  then show ?thesis by (simp add: approve_touches_def)
qed

lemma approve_expense:
  assumes "e < length (expenses d)"
  shows "approve_touches (expenses d ! e) (expenses (snd (approve d now uid k comments)) ! e)"
proof (cases "accepted d uid k")
  case False
  then have "snd (approve d now uid k comments) = d"
    using approve_not_accepted[of d uid k now comments] by (metis snd_conv)
  then show ?thesis by (simp add: approve_touches_def)
next
  case acc: True
  show ?thesis
  proof (cases "linked d k")
    case False
    show ?thesis
      unfolding approve_dangling[OF acc False]
      by (simp add: approve_touches_def decided_def)
  next
    case l: True
    let ?c = "companies d ! task_company d k"
    show ?thesis
    proof (cases "shouldApprove ?c uid (tasks_read d now k comments) \<or>
         totalLevels ?c \<le> a_level (approvals d ! k) \<or> resolved d k = None")
      case True
      have "expenses (snd (approve d now uid k comments)) =
          (expenses d)[task_expense d k := (expenses d ! task_expense d k)\<lparr>e_approvedBy :=
             e_approvedBy (expenses d ! task_expense d k) @
             [\<lparr>ab_user = uid, ab_level = a_level (approvals d ! k), ab_approvedAt = now,
               ab_comments = or_null comments\<rparr>],
           e_status := Approved, e_currentApprover := None\<rparr>]"
        by (simp add: approve_final[OF acc l True])
      then show ?thesis
        by (simp only:) (rule approve_touches_nth[OF _ assms], simp add: approve_touches_def)
    next
      case False
      then obtain nx where n: "resolved d k = Some nx" by auto
      have f1: "\<not> shouldApprove ?c uid (tasks_read d now k comments)" using False by simp
      have f2: "a_level (approvals d ! k) < totalLevels ?c" using False by simp
      have "expenses (snd (approve d now uid k comments)) =
          (expenses d)[task_expense d k := (expenses d ! task_expense d k)\<lparr>e_approvedBy :=
             e_approvedBy (expenses d ! task_expense d k) @
             [\<lparr>ab_user = uid, ab_level = a_level (approvals d ! k), ab_approvedAt = now,
               ab_comments = or_null comments\<rparr>],
           e_currentApprover := Some nx,
           e_approvalLevel := a_level (approvals d ! k) + 1\<rparr>]"
        by (simp add: approve_advance[OF acc l f1 f2 n])
      then show ?thesis
        by (simp only:) (rule approve_touches_nth[OF _ assms], simp add: approve_touches_def)
    qed
  qed
qed

lemma reject_touches_nth:
  assumes "reject_touches (xs ! i) y" and "e < length xs"
  shows "reject_touches (xs ! e) (xs[i := y] ! e)"
proof (cases "e = i")
  case True
  then show ?thesis using assms by simp
next
  case False
  then show ?thesis by (simp add: reject_touches_def)
qed

lemma reject_frame: "frame d (snd (reject d now uid k reason comments)) k 0"
proof (cases "\<not> accepted d uid k \<or> reason = []")
  case True
  then have "snd (reject d now uid k reason comments) = d"
    using reject_unchanged[of d uid k reason now comments] by (metis snd_conv)
  then show ?thesis by (simp add: frame_def)
next
  case False
  then have acc: "accepted d uid k" and r: "reason \<noteq> []" by simp_all
  show ?thesis
  proof (cases "task_expense d k < length (expenses d)")
    case False
    show ?thesis
      unfolding reject_dangling[OF acc r False] by (simp add: frame_def)
  next
    case True
    show ?thesis
      unfolding reject_done[OF acc r True] by (simp add: frame_def)
  qed
qed

lemma reject_expense:
  assumes "e < length (expenses d)"
  shows "reject_touches (expenses d ! e) (expenses (snd (reject d now uid k reason comments)) ! e)"
proof (cases "\<not> accepted d uid k \<or> reason = []")
  case True
  then have "snd (reject d now uid k reason comments) = d"
    using reject_unchanged[of d uid k reason now comments] by (metis snd_conv)
  then show ?thesis by (simp add: reject_touches_def)
next
  case False
  then have acc: "accepted d uid k" and r: "reason \<noteq> []" by simp_all
  show ?thesis
  proof (cases "task_expense d k < length (expenses d)")
    case False
    show ?thesis
      unfolding reject_dangling[OF acc r False] by (simp add: reject_touches_def)
  next
    case True
    have "expenses (snd (reject d now uid k reason comments)) =
        (expenses d)[task_expense d k :=
          (expenses d ! task_expense d k)\<lparr>e_status := Rejected,
             e_rejectionReason := Some reason, e_currentApprover := None,
             e_rejectedBy := e_rejectedBy (expenses d ! task_expense d k) @
               [\<lparr>rb_user = uid, rb_level = a_level (approvals d ! k),
                 rb_rejectedAt = now, rb_reason = reason\<rparr>]\<rparr>]"
      by (simp add: reject_done[OF acc r True])
    then show ?thesis
      by (simp only:) (rule reject_touches_nth[OF _ assms], simp add: reject_touches_def)
  qed
qed

lemma approve_touches_fields:
  assumes "approve_touches e e'"
  shows "e_amount e' = e_amount e \<and> e_currency e' = e_currency e \<and>
         e_convertedAmount e' = e_convertedAmount e \<and> e_exchangeRate e' = e_exchangeRate e \<and>
         e_rejectedBy e' = e_rejectedBy e"
  using arg_cong[OF assms[unfolded approve_touches_def], of e_amount]
    arg_cong[OF assms[unfolded approve_touches_def], of e_currency]
    arg_cong[OF assms[unfolded approve_touches_def], of e_convertedAmount]
    arg_cong[OF assms[unfolded approve_touches_def], of e_exchangeRate]
    arg_cong[OF assms[unfolded approve_touches_def], of e_rejectedBy]
  by simp

lemma reject_touches_fields:
  assumes "reject_touches e e'"
  shows "e_amount e' = e_amount e \<and> e_currency e' = e_currency e \<and>
         e_convertedAmount e' = e_convertedAmount e \<and> e_exchangeRate e' = e_exchangeRate e \<and>
         e_approvedBy e' = e_approvedBy e"
  using arg_cong[OF assms[unfolded reject_touches_def], of e_amount]
    arg_cong[OF assms[unfolded reject_touches_def], of e_currency]
    arg_cong[OF assms[unfolded reject_touches_def], of e_convertedAmount]
    arg_cong[OF assms[unfolded reject_touches_def], of e_exchangeRate]
    arg_cong[OF assms[unfolded reject_touches_def], of e_approvedBy]
  by simp

section \<open>The example states\<close>

lemma submit_started:
  "submit (\<lambda>_ _. None) db_started 0 0 taxi = (Response 201 ''Expense created successfully'', db_level1)"
  by (simp add: submit_def db_started_def db_level1_def example_defs handler_defs
      convertCurrency_def categories_def findManager_def Let_def new_expense_def toUpperCase_def)

lemma approve_level1:
  "approve db_level1 0 1 0 None = (Response 200 ''Expense approved successfully'', db_level2)"
  by (simp add: approve_def db_level1_def db_level2_def example_defs handler_defs Let_def)

lemma submit_stalled:
  "submit (\<lambda>_ _. None) db_started 0 2 taxi = (Response 201 ''Expense created successfully'', db_stalled)"
  by (simp add: submit_def db_started_def db_stalled_def example_defs handler_defs
      convertCurrency_def categories_def findManager_def Let_def new_expense_def toUpperCase_def)

lemma reachable_started: "reachable db_started"
  by (rule r_init) (simp_all add: db_started_def)

lemma reachable_stalled: "reachable db_stalled"
  using r_submit[OF reachable_started, of "\<lambda>_ _. None" 0 2 taxi]
  unfolding submit_stalled snd_conv .

lemma reachable_level1: "reachable db_level1"
  using r_submit[OF reachable_started, of "\<lambda>_ _. None" 0 0 taxi]
  unfolding submit_started snd_conv .

lemma reachable_level2: "reachable db_level2"
  using r_approve[OF reachable_level1, of 0 1 0 None]
  unfolding approve_level1 snd_conv .




section \<open>The claims\<close>

subsection \<open>C1: the percentage rule\<close>



subsection \<open>C2: the specific approver rule\<close>

text \<open>
  C2. When the company's rule mode is specific or hybrid and the acting approver is one of
  the specific approvers, an accepted approve decision answers 200 and leaves the expense
  approved with no current approver, whatever the fraction of approved tasks and whatever
  the level of the task.
\<close>

theorem specific_approver_finalizes:
  assumes "accepted d uid k" and "linked d k"
    and "approvalRules (companies d ! task_company d k) = specific \<or>
         approvalRules (companies d ! task_company d k) = hybrid"
    and "uid \<in> set (specificApprovers (companies d ! task_company d k))"
  shows "\<exists>d'. approve d now uid k comments = (Response 200 ''Expense approved successfully'', d') \<and>
           e_status (expenses d' ! task_expense d k) = Approved \<and>
           e_currentApprover (expenses d' ! task_expense d k) = None"
proof -
  have "shouldApprove (companies d ! task_company d k) uid (tasks_read d now k comments)"
    using assms(3,4) by (simp add: shouldApprove_def specific_rule_def)
  then show ?thesis
    using approve_final[OF assms(1,2), of now comments] assms(2)
    by (simp add: linked_def)
qed

theorem specific_approver_finalizes_witness:
  "accepted db_hybrid 1 0 \<and> linked db_hybrid 0 \<and>
   approvalRules (companies db_hybrid ! task_company db_hybrid 0) = hybrid \<and>
   1 \<in> set (specificApprovers (companies db_hybrid ! task_company db_hybrid 0)) \<and>
   (\<exists>d'. approve db_hybrid 0 1 0 None = (Response 200 ''Expense approved successfully'', d') \<and>
           e_status (expenses d' ! task_expense db_hybrid 0) = Approved \<and>
           e_currentApprover (expenses d' ! task_expense db_hybrid 0) = None)"
proof -
  have h: "accepted db_hybrid 1 0" "linked db_hybrid 0"
    "approvalRules (companies db_hybrid ! task_company db_hybrid 0) = hybrid"
    "1 \<in> set (specificApprovers (companies db_hybrid ! task_company db_hybrid 0))"
    by (simp_all add: db_hybrid_def statement_defs example_defs handler_defs)
  show ?thesis
    using h specific_approver_finalizes[OF h(1,2) disjI2[OF h(3)] h(4), of 0 None] by simp
qed

subsection \<open>C3: the cap\<close>

text \<open>
  C3. When an accepted approve decision satisfies neither the specific approver rule nor
  the percentage rule and the level of the acting task has reached the cap (3 under
  percentage rules, 2 otherwise), the expense is approved and has no current approver; the
  witness is a hybrid company and a task of level 2.
\<close>

theorem cap_fallback:
  assumes "accepted d uid k" and "linked d k"
    and "\<not> specific_rule (companies d ! task_company d k) uid"
    and "\<not> percentage_rule (companies d ! task_company d k) (tasks_read d now k comments)"
    and "(if approvalRules (companies d ! task_company d k) = percentage then 3 else 2)
           \<le> a_level (approvals d ! k)"
  shows "\<exists>d'. approve d now uid k comments = (Response 200 ''Expense approved successfully'', d') \<and>
           e_status (expenses d' ! task_expense d k) = Approved \<and>
           e_currentApprover (expenses d' ! task_expense d k) = None"
proof -
  have "totalLevels (companies d ! task_company d k) \<le> a_level (approvals d ! k)"
    using assms(5) by (simp add: totalLevels_def)
  then show ?thesis
    using approve_final[OF assms(1,2), of now comments] assms(2)
    by (simp add: linked_def)
qed

theorem cap_fallback_witness:
  "accepted db_cap 2 1 \<and> linked db_cap 1 \<and>
   \<not> specific_rule (companies db_cap ! task_company db_cap 1) 2 \<and>
   \<not> percentage_rule (companies db_cap ! task_company db_cap 1) (tasks_read db_cap 0 1 None) \<and>
   approvalRules (companies db_cap ! task_company db_cap 1) = hybrid \<and>
   a_level (approvals db_cap ! 1) = 2 \<and>
   (\<exists>d'. approve db_cap 0 2 1 None = (Response 200 ''Expense approved successfully'', d') \<and>
           e_status (expenses d' ! task_expense db_cap 1) = Approved \<and>
           e_currentApprover (expenses d' ! task_expense db_cap 1) = None)"
proof -
  have h: "accepted db_cap 2 1" "linked db_cap 1"
   "\<not> specific_rule (companies db_cap ! task_company db_cap 1) 2"
   "\<not> percentage_rule (companies db_cap ! task_company db_cap 1) (tasks_read db_cap 0 1 None)"
   "approvalRules (companies db_cap ! task_company db_cap 1) = hybrid"
   "a_level (approvals db_cap ! 1) = 2"
    by (simp_all add: db_cap_def statement_defs example_defs handler_defs)
  have c: "(if approvalRules (companies db_cap ! task_company db_cap 1) = percentage then 3 else 2)
           \<le> a_level (approvals db_cap ! 1)"
    using h(5,6) by simp
  show ?thesis
    using h cap_fallback[OF h(1,2,3,4) c] by simp
qed

subsection \<open>C4: the next approver\<close>

text \<open>
  Two decisions where the handler does not resolve the approver the claim names. Under
  specific rules with an empty list of specific approvers the handler looks for a manager
  and opens level 2, where the claim finds no entry and would approve. Under percentage
  rules the handler takes the first manager of the company although that user is
  deactivated, where the claim names the first active one.
\<close>

theorem next_approver_counterexample:
  "approvalRules (companies db_level1 ! task_company db_level1 0) = specific \<and>
   claimed_resolver db_level1 (companies db_level1 ! task_company db_level1 0)
     (expenses db_level1 ! task_expense db_level1 0) 2 = None \<and>
   resolved db_level1 0 = Some 1 \<and>
   e_status (expenses (snd (approve db_level1 0 1 0 None)) ! 0) = Pending \<and>
   e_currentApprover (expenses (snd (approve db_level1 0 1 0 None)) ! 0) = Some 1 \<and>
   approvalRules (companies db_inactive ! task_company db_inactive 0) = percentage \<and>
   claimed_resolver db_inactive (companies db_inactive ! task_company db_inactive 0)
     (expenses db_inactive ! task_expense db_inactive 0) 2 = Some 2 \<and>
   resolved db_inactive 0 = Some 1 \<and>
   \<not> u_isActive (users db_inactive ! 1) \<and>
   e_currentApprover (expenses (snd (approve db_inactive 0 2 0 None)) ! 0) = Some 1"
  by (simp add: approve_level1 approve_def claimed_resolver_def db_level1_def db_level2_def
      db_inactive_def statement_defs example_defs handler_defs Let_def)

text \<open>
  C4, amended. When an accepted approve decision satisfies no rule and the acting level
  \<open>l\<close> is below the cap, the approver for level \<open>l + 1\<close> is: under specific rules
  with a non-empty list of specific approvers, the entry at index \<open>l\<close> of that list
  (none when the list is that short); in every other case the first user of the expense's
  company, active or not, whose role is manager when \<open>l + 1 = 2\<close> and admin
  otherwise. When there is such a user the handler answers 200, appends one pending
  approval for that user at level \<open>l + 1\<close>, makes that user the current approver
  and sets the approval level to \<open>l + 1\<close>, leaving the status as it was; when there
  is none it answers 200, creates no approval, and the expense is approved with no current
  approver.
\<close>

theorem next_level_resolution:
  assumes "accepted d uid k" and "linked d k"
    and "\<not> shouldApprove (companies d ! task_company d k) uid (tasks_read d now k comments)"
    and "a_level (approvals d ! k) < totalLevels (companies d ! task_company d k)"
  shows "(approvalRules (companies d ! task_company d k) = specific \<and>
          specificApprovers (companies d ! task_company d k) \<noteq> [] \<longrightarrow>
            resolved d k = findById (specificApprovers (companies d ! task_company d k))
                             (a_level (approvals d ! k))) \<and>
         (\<not> (approvalRules (companies d ! task_company d k) = specific \<and>
             specificApprovers (companies d ! task_company d k) \<noteq> []) \<longrightarrow>
            (\<forall>u. resolved d k = Some u \<longleftrightarrow>
               u < length (users d) \<and>
               u_company (users d ! u) = task_company d k \<and>
               u_role (users d ! u) = (if a_level (approvals d ! k) + 1 = 2 then manager else admin) \<and>
               (\<forall>j<u. \<not> (u_company (users d ! j) = task_company d k \<and>
                  u_role (users d ! j) =
                    (if a_level (approvals d ! k) + 1 = 2 then manager else admin))))) \<and>
         (\<forall>u. resolved d k = Some u \<longrightarrow>
            fst (approve d now uid k comments) = Response 200 ''Expense approved successfully'' \<and>
            approvals (snd (approve d now uid k comments)) =
              approvals (decided d now k comments) @
                [\<lparr>a_expense = task_expense d k, a_approver = u,
                  a_level = a_level (approvals d ! k) + 1, a_status = TaskPending,
                  a_comments = None, a_rejectionReason = None, a_approvedAt = None,
                  a_dueDate = Some (now + week_ms)\<rparr>] \<and>
            e_currentApprover (expenses (snd (approve d now uid k comments)) ! task_expense d k)
              = Some u \<and>
            e_approvalLevel (expenses (snd (approve d now uid k comments)) ! task_expense d k)
              = a_level (approvals d ! k) + 1 \<and>
            e_status (expenses (snd (approve d now uid k comments)) ! task_expense d k)
              = e_status (expenses d ! task_expense d k)) \<and>
         (resolved d k = None \<longrightarrow>
            fst (approve d now uid k comments) = Response 200 ''Expense approved successfully'' \<and>
            approvals (snd (approve d now uid k comments)) = approvals (decided d now k comments) \<and>
            e_status (expenses (snd (approve d now uid k comments)) ! task_expense d k)
              = Approved \<and>
            e_currentApprover (expenses (snd (approve d now uid k comments)) ! task_expense d k)
              = None)"
proof -
  have e: "task_expense d k < length (expenses d)" using assms(2) by (simp add: linked_def)
  have c1: "approvalRules (companies d ! task_company d k) = specific \<and>
          specificApprovers (companies d ! task_company d k) \<noteq> [] \<longrightarrow>
            resolved d k = findById (specificApprovers (companies d ! task_company d k))
                             (a_level (approvals d ! k))"
    by (simp add: resolved_def nextApprover_def)
  have c2: "\<not> (approvalRules (companies d ! task_company d k) = specific \<and>
             specificApprovers (companies d ! task_company d k) \<noteq> []) \<longrightarrow>
            (\<forall>u. resolved d k = Some u \<longleftrightarrow>
               u < length (users d) \<and>
               u_company (users d ! u) = task_company d k \<and>
               u_role (users d ! u) = (if a_level (approvals d ! k) + 1 = 2 then manager else admin) \<and>
               (\<forall>j<u. \<not> (u_company (users d ! j) = task_company d k \<and>
                  u_role (users d ! j) =
                    (if a_level (approvals d ! k) + 1 = 2 then manager else admin))))"
    by (simp add: resolved_def nextApprover_def findOne_Some task_company_def)
  have c3: "fst (approve d now uid k comments) = Response 200 ''Expense approved successfully'' \<and>
            approvals (snd (approve d now uid k comments)) =
              approvals (decided d now k comments) @
                [\<lparr>a_expense = task_expense d k, a_approver = u,
                  a_level = a_level (approvals d ! k) + 1, a_status = TaskPending,
                  a_comments = None, a_rejectionReason = None, a_approvedAt = None,
                  a_dueDate = Some (now + week_ms)\<rparr>] \<and>
            e_currentApprover (expenses (snd (approve d now uid k comments)) ! task_expense d k)
              = Some u \<and>
            e_approvalLevel (expenses (snd (approve d now uid k comments)) ! task_expense d k)
              = a_level (approvals d ! k) + 1 \<and>
            e_status (expenses (snd (approve d now uid k comments)) ! task_expense d k)
              = e_status (expenses d ! task_expense d k)"
    if "resolved d k = Some u" for u
    using approve_advance[OF assms that] e by (simp add: new_approval_def)
  have c4: "resolved d k = None \<longrightarrow>
            fst (approve d now uid k comments) = Response 200 ''Expense approved successfully'' \<and>
            approvals (snd (approve d now uid k comments)) = approvals (decided d now k comments) \<and>
            e_status (expenses (snd (approve d now uid k comments)) ! task_expense d k)
              = Approved \<and>
            e_currentApprover (expenses (snd (approve d now uid k comments)) ! task_expense d k)
              = None"
    using approve_final[OF assms(1,2), of now comments] e by simp
  show ?thesis using c1 c2 c3 c4 by blast
qed

theorem next_level_resolution_witness:
  "accepted db_inactive 2 0 \<and> linked db_inactive 0 \<and>
   \<not> shouldApprove (companies db_inactive ! task_company db_inactive 0) 2
       (tasks_read db_inactive 0 0 None) \<and>
   a_level (approvals db_inactive ! 0) < totalLevels (companies db_inactive ! task_company db_inactive 0) \<and>
   resolved db_inactive 0 = Some 1 \<and>
   approvals (snd (approve db_inactive 0 2 0 None)) =
     approvals (decided db_inactive 0 0 None) @
       [\<lparr>a_expense = task_expense db_inactive 0, a_approver = 1,
         a_level = a_level (approvals db_inactive ! 0) + 1, a_status = TaskPending,
         a_comments = None, a_rejectionReason = None, a_approvedAt = None,
         a_dueDate = Some (0 + week_ms)\<rparr>] \<and>
   e_currentApprover (expenses (snd (approve db_inactive 0 2 0 None)) ! task_expense db_inactive 0)
     = Some 1 \<and>
   e_approvalLevel (expenses (snd (approve db_inactive 0 2 0 None)) ! task_expense db_inactive 0)
     = a_level (approvals db_inactive ! 0) + 1"
proof -
  have h: "accepted db_inactive 2 0" "linked db_inactive 0"
    "\<not> shouldApprove (companies db_inactive ! task_company db_inactive 0) 2
       (tasks_read db_inactive 0 0 None)"
    "a_level (approvals db_inactive ! 0) < totalLevels (companies db_inactive ! task_company db_inactive 0)"
    by (simp_all add: db_inactive_def statement_defs example_defs handler_defs)
  have r: "resolved db_inactive 0 = Some 1"
    by (simp add: db_inactive_def statement_defs example_defs handler_defs)
  show ?thesis
    using h r next_level_resolution[OF h] by simp
qed

subsection \<open>C5: rejection\<close>

text \<open>
  C5. A reject decision with a non-empty reason, accepted for a pending task whose expense
  exists, answers 200; the task is rejected and records the reason, the expense is
  rejected and has no current approver, and exactly one entry with the user, the level of
  the task, the time and the reason is appended to the rejection history. Nothing is asked
  of the level, the rule mode or the earlier approvals.
\<close>

theorem reject_finalizes:
  assumes "accepted d uid k" and "reason \<noteq> []"
    and "task_expense d k < length (expenses d)"
  shows "\<exists>d'. reject d now uid k reason comments =
             (Response 200 ''Expense rejected successfully'', d') \<and>
           a_status (approvals d' ! k) = TaskRejected \<and>
           a_rejectionReason (approvals d' ! k) = Some reason \<and>
           e_status (expenses d' ! task_expense d k) = Rejected \<and>
           e_currentApprover (expenses d' ! task_expense d k) = None \<and>
           e_rejectedBy (expenses d' ! task_expense d k) =
             e_rejectedBy (expenses d ! task_expense d k) @
               [\<lparr>rb_user = uid, rb_level = a_level (approvals d ! k),
                 rb_rejectedAt = now, rb_reason = reason\<rparr>]"
proof -
  have "k < length (approvals d)" using assms(1) by (simp add: accepted_def)
  then show ?thesis
    using reject_done[OF assms, of now comments] assms(3) by simp
qed

theorem reject_finalizes_witness:
  "accepted db_level2 1 1 \<and> ''duplicate'' \<noteq> [] \<and>
   task_expense db_level2 1 < length (expenses db_level2) \<and>
   e_approvedBy (expenses db_level2 ! task_expense db_level2 1) \<noteq> [] \<and>
   (\<exists>d'. reject db_level2 9 1 1 ''duplicate'' None =
             (Response 200 ''Expense rejected successfully'', d') \<and>
           a_status (approvals d' ! 1) = TaskRejected \<and>
           a_rejectionReason (approvals d' ! 1) = Some ''duplicate'' \<and>
           e_status (expenses d' ! task_expense db_level2 1) = Rejected \<and>
           e_currentApprover (expenses d' ! task_expense db_level2 1) = None \<and>
           e_rejectedBy (expenses d' ! task_expense db_level2 1) =
             e_rejectedBy (expenses db_level2 ! task_expense db_level2 1) @
               [\<lparr>rb_user = 1, rb_level = a_level (approvals db_level2 ! 1),
                 rb_rejectedAt = 9, rb_reason = ''duplicate''\<rparr>])"
proof -
  have h: "accepted db_level2 1 1" "''duplicate'' \<noteq> []"
   "task_expense db_level2 1 < length (expenses db_level2)"
   "e_approvedBy (expenses db_level2 ! task_expense db_level2 1) \<noteq> []"
    by (simp_all add: db_level2_def statement_defs example_defs handler_defs)
  show ?thesis
    using h reject_finalizes[OF h(1,2,3), of 9 None] by simp
qed

subsection \<open>C6: status and current approver\<close>

text \<open>
  A submission by a user without a manager is reachable and leaves the expense pending
  with no current approver: neither of the two situations of the claim.
\<close>

theorem workflow_invariant_counterexample:
  "reachable db_stalled \<and> (0::nat) < length (expenses db_stalled) \<and>
   \<not> assigned (expenses db_stalled ! 0) \<and> \<not> settled (expenses db_stalled ! 0)"
  using reachable_stalled
  by (simp add: db_stalled_def assigned_def settled_def example_defs)

text \<open>
  C6, amended. In every state reachable by submissions and approve and reject decisions,
  every expense is in exactly one of three situations: pending (or partially approved)
  with a current approver; approved or rejected without one; or pending without a current
  approver and without any approval task, which is how the submission of a user with no
  resolvable manager leaves it.
\<close>

theorem workflow_invariant:
  assumes "reachable d" and "e < length (expenses d)"
  shows "(assigned (expenses d ! e) \<and> \<not> settled (expenses d ! e) \<and> \<not> stalled d e) \<or>
         (\<not> assigned (expenses d ! e) \<and> settled (expenses d ! e) \<and> \<not> stalled d e) \<or>
         (\<not> assigned (expenses d ! e) \<and> \<not> settled (expenses d ! e) \<and> stalled d e)"
proof -
  have "inv_exp d" using reachable_consistent[OF assms(1)] by (simp add: consistent_def)
  then have x: "e_status (expenses d ! e) \<noteq> PartiallyApproved"
    "e_status (expenses d ! e) \<noteq> Pending \<longrightarrow> e_currentApprover (expenses d ! e) = None"
    "e_status (expenses d ! e) = Pending \<and> e_currentApprover (expenses d ! e) = None \<longrightarrow>
       (\<forall>i<length (approvals d). a_expense (approvals d ! i) \<noteq> e)"
    using assms(2) unfolding inv_exp_def by blast+
  show ?thesis
  proof (cases "e_status (expenses d ! e)")
    case Pending
    then show ?thesis using x by (auto simp add: assigned_def settled_def stalled_def)
  next
    case Approved
    then show ?thesis using x by (simp add: assigned_def settled_def stalled_def)
  next
    case Rejected
    then show ?thesis using x by (simp add: assigned_def settled_def stalled_def)
  next
    case PartiallyApproved
    then show ?thesis using x by simp
  qed
qed

theorem workflow_invariant_witness:
  "reachable db_level2 \<and> (0::nat) < length (expenses db_level2) \<and>
   assigned (expenses db_level2 ! 0) \<and> \<not> settled (expenses db_level2 ! 0) \<and>
   \<not> stalled db_level2 0 \<and>
   reachable db_stalled \<and> (0::nat) < length (expenses db_stalled) \<and>
   \<not> assigned (expenses db_stalled ! 0) \<and> \<not> settled (expenses db_stalled ! 0) \<and>
   stalled db_stalled 0"
proof -
  have a: "(0::nat) < length (expenses db_level2)" "assigned (expenses db_level2 ! 0)"
    by (simp_all add: db_level2_def assigned_def example_defs)
  have b: "(0::nat) < length (expenses db_stalled)" "\<not> assigned (expenses db_stalled ! 0)"
    "\<not> settled (expenses db_stalled ! 0)"
    by (simp_all add: db_stalled_def assigned_def settled_def example_defs)
  show ?thesis
    using a b reachable_level2 reachable_stalled
      workflow_invariant[OF reachable_level2 a(1)] workflow_invariant[OF reachable_stalled b(1)]
    by simp
qed

subsection \<open>C7: one pending task\<close>

text \<open>
  Requests taken one at a time keep the approvals of an expense in a chain: in every
  reachable state two different approvals of one expense are never both pending and never
  have the same level, and an approval that is followed by another one of the same expense
  is not pending.
\<close>

lemma sequential_chain:
  assumes "reachable d"
  shows "(\<forall>i j. i < length (approvals d) \<and> j < length (approvals d) \<and>
            a_expense (approvals d ! i) = a_expense (approvals d ! j) \<and>
            a_status (approvals d ! i) = TaskPending \<and>
            a_status (approvals d ! j) = TaskPending \<longrightarrow> i = j) \<and>
         (\<forall>i j. i < length (approvals d) \<and> j < length (approvals d) \<and> i \<noteq> j \<and>
            a_expense (approvals d ! i) = a_expense (approvals d ! j) \<longrightarrow>
            a_level (approvals d ! i) \<noteq> a_level (approvals d ! j)) \<and>
         (\<forall>i j. i < j \<and> j < length (approvals d) \<and>
            a_expense (approvals d ! i) = a_expense (approvals d ! j) \<longrightarrow>
            a_status (approvals d ! i) \<noteq> TaskPending)"
proof -
  have ch: "inv_chain d"
    using reachable_consistent[OF assms] by (simp add: consistent_def)
  have c: "\<And>i j. i < j \<Longrightarrow> j < length (approvals d) \<Longrightarrow>
      a_expense (approvals d ! i) = a_expense (approvals d ! j) \<Longrightarrow>
      a_status (approvals d ! i) = TaskApproved \<and>
      a_level (approvals d ! i) < a_level (approvals d ! j)"
    using ch unfolding inv_chain_def by blast
  have p1: "i = j" if "i < length (approvals d)" "j < length (approvals d)"
      "a_expense (approvals d ! i) = a_expense (approvals d ! j)"
      "a_status (approvals d ! i) = TaskPending" "a_status (approvals d ! j) = TaskPending"
    for i j
  proof (rule ccontr)
    assume "i \<noteq> j"
    then consider "i < j" | "j < i" by linarith
    then show False
      using c[of i j] c[of j i] that by cases auto
  qed
  have p2: "a_level (approvals d ! i) \<noteq> a_level (approvals d ! j)"
    if "i < length (approvals d)" "j < length (approvals d)" "i \<noteq> j"
      "a_expense (approvals d ! i) = a_expense (approvals d ! j)" for i j
  proof -
    from that(3) consider "i < j" | "j < i" by linarith
    then show ?thesis using c[of i j] c[of j i] that by cases auto
  qed
  have p3: "a_status (approvals d ! i) \<noteq> TaskPending"
    if "i < j" "j < length (approvals d)"
      "a_expense (approvals d ! i) = a_expense (approvals d ! j)" for i j
    using c[OF that] by simp
  show ?thesis using p1 p2 p3 by blast
qed

text \<open>
  C7 fails when two approvals of the same task overlap. In the reachable state
  \<open>db_level1\<close> (specific rules, no specific approver, one expense whose first-level
  approval waits for the manager, user 1) the manager sends the approve request twice.
  Both requests pass lines 82-105 before either has saved: each loads the pending approval
  with its expense. The first then runs lines 107-209 and leaves \<open>db_level2\<close>, where
  the second-level approval is pending. The second runs the same lines on the documents it
  had loaded: the answer is 200 again, a second pending approval of level 2 is created for
  the same expense, and the expense has two entries in its approval history.
\<close>

theorem overlapping_approvals:
  "reachable db_level1 \<and>
   approve_check db_level1 1 0 = Inr (task 1 1 TaskPending, Some (claim_for 1)) \<and>
   approve_commit db_level1 0 1 0 None (task 1 1 TaskPending, Some (claim_for 1)) =
     (Response 200 ''Expense approved successfully'', db_level2) \<and>
   approve_commit db_level2 0 1 0 None (task 1 1 TaskPending, Some (claim_for 1)) =
     (Response 200 ''Expense approved successfully'', db_raced) \<and>
   map a_expense (approvals db_raced) = [0, 0, 0] \<and>
   map a_level (approvals db_raced) = [1, 2, 2] \<and>
   map a_status (approvals db_raced) = [TaskApproved, TaskPending, TaskPending]"
  using reachable_level1
  by (simp add: approve_check_def approve_commit_def save_path_def db_level1_def db_level2_def
      db_raced_def example_defs handler_defs Let_def)

subsection \<open>C8: refused decisions\<close>

text \<open>
  User 2 is not the approver of a task that is already approved. Both handlers answer
  403, the answer for the wrong user, and not the answer for a decided task. The approver
  of that task, user 1, gets the answer for a decided task, and its status is 400.
\<close>

theorem refusal_counterexample:
  "a_status (approvals db_level2 ! 0) \<noteq> TaskPending \<and>
   a_approver (approvals db_level2 ! 0) \<noteq> 2 \<and>
   approve db_level2 0 2 0 None =
     (Response 403 ''You are not authorized to approve this expense'', db_level2) \<and>
   reject db_level2 0 2 0 ''late'' None =
     (Response 403 ''You are not authorized to reject this expense'', db_level2) \<and>
   a_approver (approvals db_level2 ! 0) = 1 \<and>
   status_code (fst (approve db_level2 0 1 0 None)) = 400 \<and>
   status_code (fst (reject db_level2 0 1 0 ''late'' None)) = 400"
  by (simp add: approve_def reject_def db_level2_def example_defs handler_defs)

text \<open>
  C8, amended. For a request of an active user on an existing approval (with a non-empty
  reason when it is a rejection): if the user is not the approver of the task, the answer
  has status 403; if the user is the approver, has role manager or admin, and the task is
  not pending, the answer is status 400 with the message that the approval has already been
  processed. In both cases the state is unchanged.
\<close>

theorem decision_refused:
  assumes "uid < length (users d)" and "u_isActive (users d ! uid)"
    and "k < length (approvals d)"
  shows "(a_approver (approvals d ! k) \<noteq> uid \<longrightarrow>
            status_code (fst (approve d now uid k comments)) = 403 \<and>
            snd (approve d now uid k comments) = d) \<and>
         (a_approver (approvals d ! k) = uid \<and> authorize [manager, admin] (users d ! uid) \<and>
          a_status (approvals d ! k) \<noteq> TaskPending \<longrightarrow>
            approve d now uid k comments =
              (Response 400 ''This approval has already been processed'', d)) \<and>
         (reason \<noteq> [] \<and> a_approver (approvals d ! k) \<noteq> uid \<longrightarrow>
            status_code (fst (reject d now uid k reason comments)) = 403 \<and>
            snd (reject d now uid k reason comments) = d) \<and>
         (reason \<noteq> [] \<and> a_approver (approvals d ! k) = uid \<and>
          authorize [manager, admin] (users d ! uid) \<and>
          a_status (approvals d ! k) \<noteq> TaskPending \<longrightarrow>
            reject d now uid k reason comments =
              (Response 400 ''This approval has already been processed'', d))"
  using assms
  by (simp add: approve_def reject_def auth_def findById_def)

theorem decision_refused_witness:
  "(2::nat) < length (users db_level2) \<and> u_isActive (users db_level2 ! 2) \<and>
   (0::nat) < length (approvals db_level2) \<and>
   a_approver (approvals db_level2 ! 0) \<noteq> 2 \<and>
   status_code (fst (approve db_level2 0 2 0 None)) = 403 \<and>
   snd (approve db_level2 0 2 0 None) = db_level2 \<and>
   (1::nat) < length (users db_level2) \<and> u_isActive (users db_level2 ! 1) \<and>
   a_approver (approvals db_level2 ! 0) = 1 \<and>
   authorize [manager, admin] (users db_level2 ! 1) \<and>
   a_status (approvals db_level2 ! 0) \<noteq> TaskPending \<and>
   approve db_level2 0 1 0 None =
     (Response 400 ''This approval has already been processed'', db_level2) \<and>
   reject db_level2 0 1 0 ''late'' None =
     (Response 400 ''This approval has already been processed'', db_level2)"
proof -
  have h2: "(2::nat) < length (users db_level2)" "u_isActive (users db_level2 ! 2)"
    "(0::nat) < length (approvals db_level2)" "a_approver (approvals db_level2 ! 0) \<noteq> 2"
    by (simp_all add: db_level2_def example_defs)
  have h1: "(1::nat) < length (users db_level2)" "u_isActive (users db_level2 ! 1)"
    "a_approver (approvals db_level2 ! 0) = 1"
    "authorize [manager, admin] (users db_level2 ! 1)"
    "a_status (approvals db_level2 ! 0) \<noteq> TaskPending"
    by (simp_all add: db_level2_def example_defs authorize_def)
  show ?thesis
    using h1 h2 decision_refused[OF h2(1,2,3), of 0 None "''late''"]
      decision_refused[OF h1(1,2) h2(3), of 0 None "''late''"]
    by simp
qed

subsection \<open>C9: threshold zero\<close>



text \<open>
  The handler reads the threshold as \<open>percentageThreshold || 60\<close>, so it compares with
  60 when the company's threshold is 0. A state shows the difference only if an approval of
  the expense is undecided next to the acting one, as in \<open>db_zero\<close>, and no sequence of
  requests leads to such a state.
\<close>

lemma zero_threshold_default:
  "percentageThreshold (companies db_zero ! task_company db_zero 0) = 0 \<and>
   threshold (companies db_zero ! task_company db_zero 0) = 60 \<and>
   approvalPercentage (tasks_read db_zero 0 0 None) = 50 \<and>
   \<not> percentage_rule (companies db_zero ! task_company db_zero 0) (tasks_read db_zero 0 0 None) \<and>
   \<not> reachable db_zero"
proof -
  have "\<not> inv_chain db_zero"
    unfolding inv_chain_def
    by (rule notI, erule allE[of _ 0], erule allE[of _ 1])
       (simp add: db_zero_def example_defs)
  then have "\<not> reachable db_zero"
    using reachable_consistent[of db_zero] by (auto simp add: consistent_def)
  then show ?thesis
    by (simp add: db_zero_def statement_defs example_defs handler_defs)
qed

subsection \<open>C10: the frame of a decision\<close>

text \<open>
  C10. An approve decision leaves users, companies, every other approval and every other
  expense unchanged and creates at most one approval; in the expense of the task it may
  only change the status, the current approver, the approval level and the approval
  history, so the amount, the currency, the converted amount, the exchange rate and the
  rejection history stay. A reject decision creates no approval and may only change the
  status, the current approver, the rejection reason and the rejection history, so the
  monetary fields and the approval history stay.
\<close>

theorem decision_frame:
  "frame d (snd (approve d now uid k comments)) k 1 \<and>
   (\<forall>e<length (expenses d).
      approve_touches (expenses d ! e) (expenses (snd (approve d now uid k comments)) ! e) \<and>
      e_amount (expenses (snd (approve d now uid k comments)) ! e) = e_amount (expenses d ! e) \<and>
      e_currency (expenses (snd (approve d now uid k comments)) ! e) = e_currency (expenses d ! e) \<and>
      e_convertedAmount (expenses (snd (approve d now uid k comments)) ! e)
        = e_convertedAmount (expenses d ! e) \<and>
      e_exchangeRate (expenses (snd (approve d now uid k comments)) ! e)
        = e_exchangeRate (expenses d ! e) \<and>
      e_rejectedBy (expenses (snd (approve d now uid k comments)) ! e)
        = e_rejectedBy (expenses d ! e)) \<and>
   frame d (snd (reject d now uid k reason comments)) k 0 \<and>
   (\<forall>e<length (expenses d).
      reject_touches (expenses d ! e) (expenses (snd (reject d now uid k reason comments)) ! e) \<and>
      e_amount (expenses (snd (reject d now uid k reason comments)) ! e) = e_amount (expenses d ! e) \<and>
      e_currency (expenses (snd (reject d now uid k reason comments)) ! e)
        = e_currency (expenses d ! e) \<and>
      e_convertedAmount (expenses (snd (reject d now uid k reason comments)) ! e)
        = e_convertedAmount (expenses d ! e) \<and>
      e_exchangeRate (expenses (snd (reject d now uid k reason comments)) ! e)
        = e_exchangeRate (expenses d ! e) \<and>
      e_approvedBy (expenses (snd (reject d now uid k reason comments)) ! e)
        = e_approvedBy (expenses d ! e))"
  using approve_frame[of d now uid k comments] reject_frame[of d now uid k reason comments]
    approve_touches_fields[OF approve_expense[of _ d now uid k comments]]
    reject_touches_fields[OF reject_expense[of _ d now uid k reason comments]]
    approve_expense[of _ d now uid k comments] reject_expense[of _ d now uid k reason comments]
  by simp

theorem decision_frame_witness:
  "(0::nat) < length (expenses db_level1) \<and>
   length (approvals (snd (approve db_level1 0 1 0 None))) = length (approvals db_level1) + 1 \<and>
   frame db_level1 (snd (approve db_level1 0 1 0 None)) 0 1 \<and>
   approve_touches (expenses db_level1 ! 0) (expenses (snd (approve db_level1 0 1 0 None)) ! 0) \<and>
   e_amount (expenses (snd (approve db_level1 0 1 0 None)) ! 0) = e_amount (expenses db_level1 ! 0) \<and>
   e_rejectedBy (expenses (snd (approve db_level1 0 1 0 None)) ! 0)
     = e_rejectedBy (expenses db_level1 ! 0) \<and>
   e_status (expenses (snd (reject db_level1 0 1 0 ''no'' None)) ! 0) = Rejected \<and>
   frame db_level1 (snd (reject db_level1 0 1 0 ''no'' None)) 0 0 \<and>
   reject_touches (expenses db_level1 ! 0) (expenses (snd (reject db_level1 0 1 0 ''no'' None)) ! 0) \<and>
   e_approvedBy (expenses (snd (reject db_level1 0 1 0 ''no'' None)) ! 0)
     = e_approvedBy (expenses db_level1 ! 0)"
proof -
  have e: "(0::nat) < length (expenses db_level1)" by (simp add: db_level1_def)
  have n: "length (approvals (snd (approve db_level1 0 1 0 None))) = length (approvals db_level1) + 1"
    unfolding approve_level1 by (simp add: db_level1_def db_level2_def)
  have r: "e_status (expenses (snd (reject db_level1 0 1 0 ''no'' None)) ! 0) = Rejected"
    by (simp add: reject_def db_level1_def example_defs handler_defs Let_def)
  show ?thesis
    using e n r decision_frame[of db_level1 0 1 0 None "''no''"] by simp
qed

end
